theory Spec2Isabelle
  imports Complex_Main "HOL-Library.Multiset"
begin

section \<open>JavaScript values and strings\<close>

text \<open>
  The plugin manager of \<^verbatim>\<open>src/liblary/loadPlugin.js\<close> works on request
  parameters that come out of a query string or a JSON body. A property read of a key
  that is not there gives \<^verbatim>\<open>undefined\<close>, so a parameter source is a total
  function from names to values with \<open>JUndefined\<close> for the absent ones. Objects are
  opaque (\<open>JObj\<close>, no \<^verbatim>\<open>length\<close> property of their own), numbers are integers,
  and a function is known by its \<^verbatim>\<open>length\<close>, the number of its parameters.
\<close>

datatype jsval =
    JUndefined
  | JNull
  | JBool bool
  | JNum int
  | JStr string
  | JArr "jsval list"
  | JObj
  | JFun nat

text \<open>JavaScript truthiness, as used by \<^verbatim>\<open>!source[name]\<close>.\<close>

fun truthy :: "jsval \<Rightarrow> bool" where
  "truthy JUndefined = False"
| "truthy JNull = False"
| "truthy (JBool b) = b"
| "truthy (JNum n) = (n \<noteq> 0)"
| "truthy (JStr s) = (s \<noteq> [])"
| "truthy (JArr xs) = True"
| "truthy JObj = True"
| "truthy (JFun n) = True"

datatype js_error = TypeError | SyntaxError | PlainError

text \<open>Numbers that \<^verbatim>\<open>Math.min\<close> and \<^verbatim>\<open>Math.ceil\<close> can give back.\<close>

datatype jsnum = Num int | Infinity | NaN

text \<open>
  \<^verbatim>\<open>String.prototype.toUpperCase\<close> and \<^verbatim>\<open>toLowerCase\<close> on ASCII text: a letter
  changes case by its bit 5, every other character stays.
\<close>

definition toUpperCase_char :: "char \<Rightarrow> char" where
  "toUpperCase_char c =
     (if 97 \<le> (of_char c :: nat) \<and> (of_char c :: nat) \<le> 122
      then (case c of Char b0 b1 b2 b3 b4 b5 b6 b7 \<Rightarrow> Char b0 b1 b2 b3 b4 False b6 b7)
      else c)"

definition toLowerCase_char :: "char \<Rightarrow> char" where
  "toLowerCase_char c =
     (if 65 \<le> (of_char c :: nat) \<and> (of_char c :: nat) \<le> 90
      then (case c of Char b0 b1 b2 b3 b4 b5 b6 b7 \<Rightarrow> Char b0 b1 b2 b3 b4 True b6 b7)
      else c)"

definition toUpperCase :: "string \<Rightarrow> string" where
  "toUpperCase s = map toUpperCase_char s"

definition toLowerCase :: "string \<Rightarrow> string" where
  "toLowerCase s = map toLowerCase_char s"

text \<open>\<^verbatim>\<open>s.startsWith(p)\<close>.\<close>

definition startsWith :: "string \<Rightarrow> string \<Rightarrow> bool" where
  "startsWith s p = (take (length p) s = p)"

text \<open>
  \<^verbatim>\<open>s.split(c)\<close> for a one-character separator: the pieces between the
  separators, empty pieces included; the empty string gives one empty piece.
\<close>

fun split :: "char \<Rightarrow> string \<Rightarrow> string list" where
  "split c [] = [[]]"
| "split c (x # xs) =
     (if x = c then [] # split c xs
      else (case split c xs of [] \<Rightarrow> [[x]] | w # ws \<Rightarrow> (x # w) # ws))"

text \<open>The single quote, for the messages that carry one.\<close>

definition sq :: string where
  "sq = [CHR 0x27]"

text \<open>Template-literal rendering of an integer, \<^verbatim>\<open>`${n}`\<close>.\<close>

fun show_nat :: "nat \<Rightarrow> string" where
  "show_nat n =
     (if n < 10 then [char_of (48 + n)]
      else show_nat (n div 10) @ [char_of (48 + n mod 10)])"

declare show_nat.simps [simp del]

definition show_int :: "int \<Rightarrow> string" where
  "show_int i = (if i < 0 then CHR ''-'' # show_nat (nat (- i)) else show_nat (nat i))"

section \<open>Requests, descriptors and responses\<close>

text \<open>
  A request: \<open>query\<close> and \<open>body\<close> give the own properties of the parsed query string and
  of the parsed body.
\<close>

record request =
  authorization :: "string option"  \<comment> \<open>\<^verbatim>\<open>req.headers["authorization"]\<close>\<close>
  query :: "string \<Rightarrow> jsval"
  body :: "string \<Rightarrow> jsval"
  ip :: string

text \<open>
  The property read \<^verbatim>\<open>source[name]\<close>. The parsed query and body are ordinary
  objects, so a name that is not among their own properties is looked up in
  \<^verbatim>\<open>Object.prototype\<close>, whose members are methods and \<^verbatim>\<open>__proto__\<close>.
\<close>

definition Object_prototype :: "(string \<times> jsval) list" where
  "Object_prototype =
     [(''constructor'', JFun 1), (''toString'', JFun 0), (''toLocaleString'', JFun 0),
      (''valueOf'', JFun 0), (''hasOwnProperty'', JFun 1), (''isPrototypeOf'', JFun 1),
      (''propertyIsEnumerable'', JFun 1), (''__defineGetter__'', JFun 2),
      (''__defineSetter__'', JFun 2), (''__lookupGetter__'', JFun 1),
      (''__lookupSetter__'', JFun 1), (''__proto__'', JObj)]"

definition property :: "(string \<Rightarrow> jsval) \<Rightarrow> string \<Rightarrow> jsval" where
  "property source n =
     (if source n \<noteq> JUndefined then source n
      else (case map_of Object_prototype n of None \<Rightarrow> JUndefined | Some v \<Rightarrow> v))"

text \<open>
  A response of the guard pipeline: a status and a JSON body. The
  \<^verbatim>\<open>timestamp\<close> and \<^verbatim>\<open>errorId\<close> fields (clock and random generator) are left out.
\<close>

datatype body =
    Payload string  \<comment> \<open>what a plugin's own \<^verbatim>\<open>exec\<close> sends\<close>
  | ErrorBody string
  | ValidationBody string "string list"
  | RateLimitBody string jsnum
  | InternalBody string

datatype response = Json nat body

text \<open>
  What a call of \<^verbatim>\<open>plugin.exec(req, res, next)\<close> does, as far as the pipeline can
  see it: the response it sent (if any) and how and when its promise settles. A
  synchronous throw is a rejection at time 0.
\<close>

datatype settle = Resolves nat | Rejects nat | Never

record exec_result =
  sent :: "response option"
  settles :: settle

text \<open>
  An entry of \<^verbatim>\<open>plugin.parameter\<close>: a bare name, an object
  \<^verbatim>\<open>{name, required = true, type, min, max, pattern}\<close>, or anything else
  (neither a string nor an object), which \<^verbatim>\<open>validateParameters\<close> skips.
\<close>

record pspec =
  p_name :: string
  p_required :: "bool option"
  p_type :: "string option"
  p_min :: "int option"
  p_max :: "int option"
  p_pattern :: "string option"

datatype param = PName string | PSpec pspec | POther

text \<open>
  The descriptor a plugin module exports. \<^verbatim>\<open>rateLimit\<close> is an object with numeric
  properties, read by property name.
\<close>

record plugin =
  path :: "string option"
  http_method :: "string option"  \<comment> \<open>the property \<^verbatim>\<open>method\<close>\<close>
  name :: "string option"
  description :: "string option"
  authentication :: bool
  tags :: "string list"
  parameter :: "param list"
  rateLimit :: "(string \<rightharpoonup> int) option"
  timeout :: "nat option"
  version :: "string option"
  deprecated :: bool
  exec :: "(request \<Rightarrow> exec_result) option"

text \<open>
  What the code takes from outside the repository: the regular-expression engine, the
  number parser and the process environment.
\<close>

record host =
  isNaN_Number :: "jsval \<Rightarrow> bool"  \<comment> \<open>\<^verbatim>\<open>isNaN(Number(value))\<close>\<close>
  email_test :: "jsval \<Rightarrow> bool"  \<comment> \<open>the e-mail regular expression on the value\<close>
  url_test :: "jsval \<Rightarrow> bool"  \<comment> \<open>the URL regular expression on the value\<close>
  RegExp_test :: "string \<Rightarrow> jsval \<Rightarrow> bool option"
    \<comment> \<open>\<^verbatim>\<open>new RegExp(pattern).test(value)\<close>; \<open>None\<close> when the pattern does not compile\<close>
  TOKEN :: "string option"  \<comment> \<open>\<^verbatim>\<open>process.env.TOKEN\<close>\<close>
  localeCompare :: "string \<Rightarrow> string \<Rightarrow> int"  \<comment> \<open>\<^verbatim>\<open>a.localeCompare(b)\<close> on strings\<close>

section \<open>Authentication\<close>

datatype auth_result = AuthValid | AuthInvalid nat string

definition validateAuthentication :: "host \<Rightarrow> request \<Rightarrow> auth_result" where
  "validateAuthentication h req =
     (case authorization req of
        None \<Rightarrow> AuthInvalid 401 ''Authorization header is required''
      | Some authHeader \<Rightarrow>
          if authHeader = [] then AuthInvalid 401 ''Authorization header is required''
          else if \<not> startsWith authHeader ''Bearer ''
          then AuthInvalid 401 (''Invalid authorization format. Use '' @ sq @ ''Bearer <token>'' @ sq)
          else (case split CHR '' '' authHeader of
                  _ # token # _ \<Rightarrow>
                    if token = [] then AuthInvalid 401 ''Token is required''
                    else if Some token \<noteq> TOKEN h
                    then AuthInvalid 403 ''Invalid or expired token''
                    else AuthValid
                | _ \<Rightarrow> AuthInvalid 401 ''Token is required''))"

section \<open>Parameter validation\<close>

definition validateType :: "host \<Rightarrow> jsval \<Rightarrow> string \<Rightarrow> bool" where
  "validateType h v t =
     (if t = ''string'' then (case v of JStr _ \<Rightarrow> True | _ \<Rightarrow> False)
      else if t = ''number'' then \<not> isNaN_Number h v
      else if t = ''boolean''
      then (v = JStr ''true'' \<or> v = JStr ''false'' \<or> (case v of JBool _ \<Rightarrow> True | _ \<Rightarrow> False))
      else if t = ''email'' then email_test h v
      else if t = ''url'' then url_test h v
      else True)"

text \<open>
  The messages pushed on \<^verbatim>\<open>errors\<close>, one constructor for each template literal
  of \<^verbatim>\<open>validateParameters\<close>; \<open>message\<close> is the string.
\<close>

datatype violation =
    Required string
  | TypeMismatch string string
  | TooShort string int
  | TooLong string int
  | BadFormat string

fun message :: "violation \<Rightarrow> string" where
  "message (Required n) = ''Parameter '' @ sq @ n @ sq @ '' is required''"
| "message (TypeMismatch n t) = ''Parameter '' @ sq @ n @ sq @ '' must be of type '' @ t"
| "message (TooShort n m) =
     ''Parameter '' @ sq @ n @ sq @ '' must be at least '' @ show_int m @ '' characters''"
| "message (TooLong n m) =
     ''Parameter '' @ sq @ n @ sq @ '' must be at most '' @ show_int m @ '' characters''"
| "message (BadFormat n) = ''Parameter '' @ sq @ n @ sq @ '' format is invalid''"

text \<open>
  \<^verbatim>\<open>value.length\<close> for a value that is not \<^verbatim>\<open>undefined\<close>: reading it off
  \<^verbatim>\<open>null\<close> throws, a boolean, a number and an object have none.
\<close>

fun js_length :: "jsval \<Rightarrow> js_error + int option" where
  "js_length JUndefined = Inl TypeError"
| "js_length JNull = Inl TypeError"
| "js_length (JStr s) = Inr (Some (int (length s)))"
| "js_length (JArr xs) = Inr (Some (int (length xs)))"
| "js_length (JBool b) = Inr None"
| "js_length (JNum n) = Inr None"
| "js_length JObj = Inr None"
| "js_length (JFun n) = Inr (Some (int n))"

text \<open>Sequencing of steps that may throw.\<close>

definition andThen :: "'e + 'a \<Rightarrow> ('a \<Rightarrow> 'e + 'b) \<Rightarrow> 'e + 'b" where
  "andThen r f = (case r of Inl e \<Rightarrow> Inl e | Inr x \<Rightarrow> f x)"

text \<open>The three blocks of the object branch that run once a value is there.\<close>

definition check_type :: "host \<Rightarrow> pspec \<Rightarrow> jsval \<Rightarrow> violation list \<Rightarrow> violation list" where
  "check_type h ps v errors =
     (case p_type ps of
        None \<Rightarrow> errors
      | Some t \<Rightarrow>
          if t \<noteq> [] \<and> \<not> validateType h v t then errors @ [TypeMismatch (p_name ps) t]
          else errors)"

definition check_min :: "pspec \<Rightarrow> jsval \<Rightarrow> violation list \<Rightarrow> js_error + violation list" where
  "check_min ps v errors =
     (case p_min ps of
        None \<Rightarrow> Inr errors
      | Some m \<Rightarrow>
          andThen (js_length v) (\<lambda>len.
            Inr (case len of
                   None \<Rightarrow> errors
                 | Some l \<Rightarrow> if l < m then errors @ [TooShort (p_name ps) m] else errors)))"

definition check_max :: "pspec \<Rightarrow> jsval \<Rightarrow> violation list \<Rightarrow> js_error + violation list" where
  "check_max ps v errors =
     (case p_max ps of
        None \<Rightarrow> Inr errors
      | Some m \<Rightarrow>
          andThen (js_length v) (\<lambda>len.
            Inr (case len of
                   None \<Rightarrow> errors
                 | Some l \<Rightarrow> if l > m then errors @ [TooLong (p_name ps) m] else errors)))"

definition check_pattern ::
  "host \<Rightarrow> pspec \<Rightarrow> jsval \<Rightarrow> violation list \<Rightarrow> js_error + violation list" where
  "check_pattern h ps v errors =
     (case p_pattern ps of
        None \<Rightarrow> Inr errors
      | Some p \<Rightarrow>
          if p = [] then Inr errors
          else (case RegExp_test h p v of
                  None \<Rightarrow> Inl SyntaxError
                | Some ok \<Rightarrow> Inr (if ok then errors else errors @ [BadFormat (p_name ps)])))"

text \<open>
  The callback of \<^verbatim>\<open>plugin.parameter.forEach\<close>: it takes the \<^verbatim>\<open>errors\<close>
  array as it is and gives it back, longer or not, or throws.
\<close>

fun check_param ::
  "host \<Rightarrow> (string \<Rightarrow> jsval) \<Rightarrow> param \<Rightarrow> violation list \<Rightarrow> js_error + violation list" where
  "check_param h source (PName n) errors =
     Inr (if \<not> truthy (property source n) then errors @ [Required n] else errors)"
| "check_param h source (PSpec ps) errors =
     (if (case p_required ps of None \<Rightarrow> True | Some r \<Rightarrow> r)
         \<and> \<not> truthy (property source (p_name ps))
      then Inr (errors @ [Required (p_name ps)])
      else
        let v = property source (p_name ps) in
        if v \<noteq> JUndefined
        then andThen (check_min ps v (check_type h ps v errors)) (\<lambda>e2.
             andThen (check_max ps v e2) (\<lambda>e3.
             check_pattern h ps v e3))
        else Inr errors)"
| "check_param h source POther errors = Inr errors"

fun forEach ::
  "('a \<Rightarrow> 's \<Rightarrow> js_error + 's) \<Rightarrow> 'a list \<Rightarrow> 's \<Rightarrow> js_error + 's" where
  "forEach f [] s = Inr s"
| "forEach f (x # xs) s = andThen (f x s) (forEach f xs)"

text \<open>
  The source of the parameters: \<^verbatim>\<open>plugin.method?.toUpperCase() === "GET"\<close>
  selects the query string; a descriptor without \<^verbatim>\<open>method\<close> gives
  \<^verbatim>\<open>undefined === "GET"\<close>, so the body.
\<close>

definition param_source :: "plugin \<Rightarrow> request \<Rightarrow> (string \<Rightarrow> jsval)" where
  "param_source p req =
     (if map_option toUpperCase (http_method p) = Some ''GET'' then query req else body req)"

text \<open>
  \<^verbatim>\<open>validateParameters\<close> gives \<^verbatim>\<open>{valid: errors.length === 0, errors}\<close>; the
  model gives the \<^verbatim>\<open>errors\<close> list, valid when it is empty.
\<close>

definition validateParameters :: "host \<Rightarrow> plugin \<Rightarrow> request \<Rightarrow> js_error + violation list" where
  "validateParameters h p req =
     (if parameter p = [] then Inr []
      else forEach (check_param h (param_source p req)) (parameter p) [])"

section \<open>Rate limiting\<close>

type_synonym store = "string \<rightharpoonup> int list"

datatype rate_result = Allowed | Denied jsnum

text \<open>
  The key \<^verbatim>\<open>`${req.ip}-${plugin.name}`\<close>; a descriptor without a name renders
  as \<^verbatim>\<open>undefined\<close>.
\<close>

definition rate_key :: "request \<Rightarrow> plugin \<Rightarrow> string" where
  "rate_key req p = ip req @ ''-'' @ (case name p of None \<Rightarrow> ''undefined'' | Some n \<Rightarrow> n)"

text \<open>
  \<^verbatim>\<open>requests.filter(time => now - time < window)\<close>; with \<^verbatim>\<open>window\<close> undefined
  the comparison is with \<^verbatim>\<open>NaN\<close> and nothing survives.
\<close>

definition validRequests :: "int option \<Rightarrow> int \<Rightarrow> int list \<Rightarrow> int list" where
  "validRequests window now requests =
     filter (\<lambda>time. case window of None \<Rightarrow> False | Some w \<Rightarrow> now - time < w) requests"

text \<open>\<^verbatim>\<open>validRequests.length >= limit\<close>; false when \<^verbatim>\<open>limit\<close> is undefined.\<close>

definition at_limit :: "int option \<Rightarrow> int list \<Rightarrow> bool" where
  "at_limit limit valid = (case limit of None \<Rightarrow> False | Some l \<Rightarrow> int (length valid) \<ge> l)"

text \<open>\<^verbatim>\<open>Math.min(...xs)\<close>: \<^verbatim>\<open>Infinity\<close> for no argument.\<close>

fun Math_min :: "int list \<Rightarrow> jsnum" where
  "Math_min [] = Infinity"
| "Math_min (x # xs) = Num (fold min xs x)"

text \<open>\<^verbatim>\<open>Math.ceil(a / 1000)\<close> on an integer \<open>a\<close>.\<close>

definition ceil_div_1000 :: "int \<Rightarrow> int" where
  "ceil_div_1000 a = - ((- a) div 1000)"

text \<open>\<^verbatim>\<open>Math.ceil((window - (now - oldestRequest)) / 1000)\<close>.\<close>

definition retryAfter :: "int option \<Rightarrow> int \<Rightarrow> jsnum \<Rightarrow> jsnum" where
  "retryAfter window now oldestRequest =
     (case window of
        None \<Rightarrow> NaN
      | Some w \<Rightarrow>
          (case oldestRequest of
             Num t \<Rightarrow> Num (ceil_div_1000 (w - (now - t)))
           | Infinity \<Rightarrow> Infinity
           | NaN \<Rightarrow> NaN))"

text \<open>
  \<^verbatim>\<open>checkRateLimit(req, plugin)\<close> at clock reading \<open>now\<close>. The store that the
  code creates on first use is the empty map. Destructuring a missing
  \<^verbatim>\<open>plugin.rateLimit\<close> throws.
\<close>

definition checkRateLimit ::
  "store \<Rightarrow> request \<Rightarrow> plugin \<Rightarrow> int \<Rightarrow> js_error + (store \<times> rate_result)" where
  "checkRateLimit st req p now =
     (case rateLimit p of
        None \<Rightarrow> Inl TypeError
      | Some rl \<Rightarrow>
          let key = rate_key req p;
              limit = rl ''limit'';
              window = rl ''window'';
              requests = (case st key of None \<Rightarrow> [] | Some r \<Rightarrow> r);
              valid = validRequests window now requests
          in if at_limit limit valid
             then Inr (st, Denied (retryAfter window now (Math_min valid)))
             else Inr (st(key \<mapsto> valid @ [now]), Allowed))"

section \<open>The guard pipeline\<close>

text \<open>
  The handler that \<^verbatim>\<open>withValidation(plugin)\<close> returns, run on one request at
  clock reading \<open>now\<close>. It either stops before \<^verbatim>\<open>exec\<close> with a response
  (\<open>Stopped\<close>: 401, 403, 400, 429, or the 500 of the \<^verbatim>\<open>catch\<close> block), or it calls
  \<^verbatim>\<open>exec\<close> (\<open>Executed\<close>, with the response the client gets, if any).
\<close>

datatype outcome = Stopped response | Executed "response option"

definition internal_error :: response where
  "internal_error = Json 500 (InternalBody ''Internal server error'')"

text \<open>
  The race of \<^verbatim>\<open>exec\<close> against the timer of \<^verbatim>\<open>plugin.timeout || 30000\<close>
  milliseconds and the \<^verbatim>\<open>catch\<close> block: a rejection or the timer answers 500
  unless \<^verbatim>\<open>exec\<close> has already sent a response.
\<close>

definition run_exec :: "plugin \<Rightarrow> (request \<Rightarrow> exec_result) \<Rightarrow> request \<Rightarrow> response option" where
  "run_exec p f req =
     (let t = (case timeout p of None \<Rightarrow> 30000 | Some n \<Rightarrow> if n = 0 then 30000 else n);
          r = f req
      in case settles r of
           Resolves d \<Rightarrow>
             if d < t then sent r
             else (case sent r of None \<Rightarrow> Some internal_error | Some x \<Rightarrow> Some x)
         | Rejects d \<Rightarrow> (case sent r of None \<Rightarrow> Some internal_error | Some x \<Rightarrow> Some x)
         | Never \<Rightarrow> (case sent r of None \<Rightarrow> Some internal_error | Some x \<Rightarrow> Some x))"

definition execute :: "plugin \<Rightarrow> request \<Rightarrow> outcome" where
  "execute p req =
     (case exec p of
        None \<Rightarrow> Stopped internal_error
      | Some f \<Rightarrow> Executed (run_exec p f req))"

definition rate_stage :: "store \<Rightarrow> plugin \<Rightarrow> request \<Rightarrow> int \<Rightarrow> store \<times> outcome" where
  "rate_stage st p req now =
     (if rateLimit p \<noteq> None
      then (case checkRateLimit st req p now of
              Inl e \<Rightarrow> (st, Stopped internal_error)
            | Inr (st', Denied r) \<Rightarrow>
                (st', Stopped (Json 429 (RateLimitBody ''Rate limit exceeded'' r)))
            | Inr (st', Allowed) \<Rightarrow> (st', execute p req))
      else (st, execute p req))"

definition param_stage :: "host \<Rightarrow> store \<Rightarrow> plugin \<Rightarrow> request \<Rightarrow> int \<Rightarrow> store \<times> outcome" where
  "param_stage h st p req now =
     (case validateParameters h p req of
        Inl e \<Rightarrow> (st, Stopped internal_error)
      | Inr errors \<Rightarrow>
          if errors \<noteq> []
          then (st, Stopped (Json 400 (ValidationBody ''Validation failed'' (map message errors))))
          else rate_stage st p req now)"

definition withValidation :: "host \<Rightarrow> plugin \<Rightarrow> store \<Rightarrow> request \<Rightarrow> int \<Rightarrow> store \<times> outcome" where
  "withValidation h p st req now =
     (if authentication p
      then (case validateAuthentication h req of
              AuthInvalid status msg \<Rightarrow> (st, Stopped (Json status (ErrorBody msg)))
            | AuthValid \<Rightarrow> param_stage h st p req now)
      else param_stage h st p req now)"

text \<open>
  The handler on successive requests, each with its clock reading: the store that one
  call leaves is the store of the next.
\<close>

fun serve :: "host \<Rightarrow> plugin \<Rightarrow> store \<Rightarrow> (request \<times> int) list \<Rightarrow> outcome list" where
  "serve h p st [] = []"
| "serve h p st ((req, now) # rest) =
     (case withValidation h p st req now of (st', out) \<Rightarrow> out # serve h p st' rest)"

section \<open>The registry\<close>

text \<open>
  What \<^verbatim>\<open>require(pluginPath)\<close> gives for a plugin file: a descriptor object, or a
  value that is not an object. A \<^verbatim>\<open>require\<close> that throws is \<open>None\<close> at
  \<open>loadPlugin\<close>.
\<close>

datatype export = NotObject | Module plugin

definition allowedMethods :: "string list" where
  "allowedMethods = [''GET'', ''POST'', ''PUT'', ''DELETE'', ''PATCH'']"

text \<open>
  \<^verbatim>\<open>validatePlugin\<close> gives \<^verbatim>\<open>{valid: errors.length === 0, errors}\<close>; the model gives
  the \<^verbatim>\<open>errors\<close> list. The fields are typed as the descriptor schema has them:
  \<^verbatim>\<open>path\<close> and \<^verbatim>\<open>method\<close> are strings when they are there at all.
\<close>

definition validatePlugin :: "export \<Rightarrow> string \<Rightarrow> string list" where
  "validatePlugin ex file =
     (case ex of
        NotObject \<Rightarrow> [''Plugin must export an object'']
      | Module p \<Rightarrow>
          let routePath = path p;
              m = (case http_method p of None \<Rightarrow> ''GET'' | Some x \<Rightarrow> x)
          in (if routePath = None \<or> routePath = Some []
              then [''Plugin must have a valid '' @ sq @ ''path'' @ sq @ '' property'']
              else [])
           @ (if exec p = None
              then [''Plugin must have a valid '' @ sq @ ''exec'' @ sq @ '' function'']
              else [])
           @ (if toUpperCase m \<notin> set allowedMethods
              then [''Method '' @ sq @ m @ sq
                    @ '' is not supported. Use: GET, POST, PUT, DELETE, PATCH'']
              else [])
           @ (case routePath of
                None \<Rightarrow> []
              | Some rp \<Rightarrow>
                  if rp \<noteq> [] \<and> \<not> startsWith rp ''/''
                  then [''Route path must start with '' @ sq @ ''/'' @ sq]
                  else []))"

text \<open>
  The Route Entry \<^verbatim>\<open>{routePath, method}\<close>, the endpoint metadata, and a layer of
  the router's stack: a route layer made by \<^verbatim>\<open>app.get\<close>, \<^verbatim>\<open>app.post\<close>, ...
  carries its path and the one key of \<^verbatim>\<open>route.methods\<close> (the verb in lower case);
  any other layer has no \<^verbatim>\<open>route\<close>.
\<close>

record route =
  routePath :: "string option"
  route_method :: string

record endpoint =
  e_path :: "string option"
  e_name :: string
  e_description :: string
  e_authentication :: bool
  e_method :: string
  e_tags :: "string list"
  e_parameter :: "param list"
  e_version :: string
  e_deprecated :: bool
  e_rateLimit :: "(string \<rightharpoonup> int) option"
  e_timeout :: nat

datatype layer = Middleware | RouteLayer "string option" string

text \<open>
  The host application, as far as registration meets it: the route stack of its
  router; whether \<^verbatim>\<open>app._router?.stack\<close> is there and is that stack (a host that
  keeps its router elsewhere has no \<^verbatim>\<open>app._router\<close>); and the paths that
  \<^verbatim>\<open>app.get\<close>, \<^verbatim>\<open>app.post\<close>, ... mount, the call throwing on any other.
  \<^verbatim>\<open>unregisterPlugin\<close> reads \<^verbatim>\<open>app._router\<close> only for a file that has a Route
  Entry, so only after a mount: a host that creates \<^verbatim>\<open>app._router\<close> with its first
  mount is one that exposes it.
\<close>

record app =
  router_stack :: "layer list"
  exposes_router :: bool
  mountable :: "string option \<Rightarrow> bool"

text \<open>
  The fields of \<^verbatim>\<open>PluginManager\<close> that registration works on. The
  \<^verbatim>\<open>middleware\<close> list travels inside each route layer and is left out; the
  rate-limit store is the \<open>store\<close> of the guard pipeline.
\<close>

record manager =
  endpoints :: "endpoint list"
  routes :: "string \<rightharpoonup> route"
  plugins :: "string \<rightharpoonup> plugin"

text \<open>
  The filter predicate of \<^verbatim>\<open>unregisterPlugin\<close>, applied under the guard
  \<^verbatim>\<open>if (app._router?.stack)\<close>:
  \<^verbatim>\<open>layer.route?.path === oldRoute.routePath && layer.route?.methods[oldRoute.method.toLowerCase()]\<close>.
\<close>

fun layer_matches :: "route \<Rightarrow> layer \<Rightarrow> bool" where
  "layer_matches old Middleware = False"
| "layer_matches old (RouteLayer pth m) =
     (pth = routePath old \<and> m = toLowerCase (route_method old))"

definition unregisterPlugin :: "manager \<times> app \<Rightarrow> string \<Rightarrow> manager \<times> app" where
  "unregisterPlugin s file =
     (case s of (mg, a) \<Rightarrow>
        (case routes mg file of
           None \<Rightarrow> (mg, a)
         | Some oldRoute \<Rightarrow>
             (mg\<lparr>routes := (routes mg)(file := None),
                 plugins := (plugins mg)(file := None),
                 endpoints :=
                   filter (\<lambda>e. \<not> (e_path e = routePath oldRoute \<and> e_method e = route_method oldRoute))
                     (endpoints mg)\<rparr>,
              if exposes_router a
              then a\<lparr>router_stack := filter (\<lambda>l. \<not> layer_matches oldRoute l) (router_stack a)\<rparr>
              else a)))"

text \<open>\<^verbatim>\<open>plugin.method?.toUpperCase() || "GET"\<close>.\<close>

definition method_or_GET :: "plugin \<Rightarrow> string" where
  "method_or_GET p =
     (case http_method p of
        None \<Rightarrow> ''GET''
      | Some m \<Rightarrow> if toUpperCase m = [] then ''GET'' else toUpperCase m)"

text \<open>
  A call \<^verbatim>\<open>app.get(routePath, ...)\<close>, \<^verbatim>\<open>app.post(routePath, ...)\<close>, ...: a new
  route layer at the end of the stack, or an exception from the host router.
\<close>

definition mount :: "app \<Rightarrow> string option \<Rightarrow> string \<Rightarrow> js_error + app" where
  "mount a rp verb =
     (if mountable a rp then Inr (a\<lparr>router_stack := router_stack a @ [RouteLayer rp verb]\<rparr>)
      else Inl TypeError)"

definition registerRoute :: "manager \<times> app \<Rightarrow> plugin \<Rightarrow> string \<Rightarrow> js_error + manager \<times> app" where
  "registerRoute s p file =
     (case s of (mg, a) \<Rightarrow>
        let m = method_or_GET p;
            rp = path p;
            mounted =
              (if m = ''GET'' then mount a rp ''get''
               else if m = ''POST'' then mount a rp ''post''
               else if m = ''PUT'' then mount a rp ''put''
               else if m = ''DELETE'' then mount a rp ''delete''
               else if m = ''PATCH'' then mount a rp ''patch''
               else Inl PlainError)
        in andThen mounted (\<lambda>a'.
             Inr (mg\<lparr>routes := (routes mg)(file \<mapsto> \<lparr>routePath = rp, route_method = m\<rparr>)\<rparr>, a')))"

text \<open>\<^verbatim>\<open>file.replace(/\.js$/, "")\<close>.\<close>

definition strip_js :: "string \<Rightarrow> string" where
  "strip_js file =
     (if 3 \<le> length file \<and> drop (length file - 3) file = ''.js''
      then take (length file - 3) file else file)"

definition updateEndpointsRegistry :: "manager \<Rightarrow> plugin \<Rightarrow> string \<Rightarrow> manager" where
  "updateEndpointsRegistry mg p file =
     mg\<lparr>endpoints := endpoints mg @
       [\<lparr>e_path = path p,
         e_name = (case name p of None \<Rightarrow> strip_js file
                   | Some n \<Rightarrow> if n = [] then strip_js file else n),
         e_description = (case description p of None \<Rightarrow> [] | Some d \<Rightarrow> d),
         e_authentication = authentication p,
         e_method = method_or_GET p,
         e_tags = tags p,
         e_parameter = parameter p,
         e_version = (case version p of None \<Rightarrow> ''1.0.0''
                      | Some v \<Rightarrow> if v = [] then ''1.0.0'' else v),
         e_deprecated = deprecated p,
         e_rateLimit = rateLimit p,
         e_timeout = (case timeout p of None \<Rightarrow> 30000
                      | Some n \<Rightarrow> if n = 0 then 30000 else n)\<rparr>]\<rparr>"

text \<open>
  \<^verbatim>\<open>loadPlugin(app, file, pluginsDir)\<close>, with what \<^verbatim>\<open>require\<close> gives for the
  file at that moment as an argument. The result is the new state and the boolean
  returned. The file is taken to exist: for a path that does not resolve,
  \<^verbatim>\<open>require.resolve\<close> throws before the manager or the application is touched.
\<close>

definition loadPlugin :: "manager \<times> app \<Rightarrow> string \<Rightarrow> export option \<Rightarrow> (manager \<times> app) \<times> bool" where
  "loadPlugin s file required =
     (case required of
        None \<Rightarrow> (s, False)
      | Some ex \<Rightarrow>
          if validatePlugin ex file \<noteq> [] then (s, False)
          else (case ex of
                  NotObject \<Rightarrow> (s, False)
                | Module p \<Rightarrow>
                    let s1 = unregisterPlugin s file
                    in (case registerRoute s1 p file of
                          Inl e \<Rightarrow> (s1, False)
                        | Inr (mg2, a2) \<Rightarrow>
                            ((updateEndpointsRegistry
                                (mg2\<lparr>plugins := (plugins mg2)(file \<mapsto> p)\<rparr>) p file, a2),
                             True))))"

text \<open>\<^verbatim>\<open>reloadPlugin\<close> logs and loads.\<close>

definition reloadPlugin :: "manager \<times> app \<Rightarrow> string \<Rightarrow> export option \<Rightarrow> (manager \<times> app) \<times> bool" where
  "reloadPlugin s file required = loadPlugin s file required"

text \<open>Sequences of registry calls from the state of a fresh manager.\<close>

datatype event = Load string "export option" | Unregister string

fun step :: "manager \<times> app \<Rightarrow> event \<Rightarrow> manager \<times> app" where
  "step s (Load file required) = fst (loadPlugin s file required)"
| "step s (Unregister file) = unregisterPlugin s file"

definition run :: "manager \<times> app \<Rightarrow> event list \<Rightarrow> manager \<times> app" where
  "run s evs = foldl step s evs"

text \<open>
  The manager as its constructor leaves it, and a fresh manager on an application
  that exposes its router as \<^verbatim>\<open>app._router\<close>, mounts every path, and holds the
  \<open>n\<close> middleware layers that the host installed before the plugins are loaded.
\<close>

definition new_manager :: manager where
  "new_manager = \<lparr>endpoints = [], routes = Map.empty, plugins = Map.empty\<rparr>"

definition init :: "nat \<Rightarrow> manager \<times> app" where
  "init n =
     (new_manager,
      \<lparr>router_stack = replicate n Middleware, exposes_router = True,
       mountable = (\<lambda>rp. True)\<rparr>)"

text \<open>The \<open>(path, method)\<close> pairs of the route layers of a stack, in stack order.\<close>

fun route_keys :: "layer list \<Rightarrow> (string option \<times> string) list" where
  "route_keys [] = []"
| "route_keys (Middleware # ls) = route_keys ls"
| "route_keys (RouteLayer pth m # ls) = (pth, m) # route_keys ls"

definition plugin_key :: "plugin \<Rightarrow> string option \<times> string" where
  "plugin_key p = (path p, toLowerCase (method_or_GET p))"

section \<open>Listing the endpoints\<close>

record filters =
  f_method :: "string option"
  f_authenticated :: "bool option"
  f_tag :: "string option"
  f_deprecated :: "bool option"
  f_sortBy :: "string option"
  f_sortOrder :: "string option"

text \<open>The four filters of \<^verbatim>\<open>getEndpoints\<close>, applied to a copy of the list.\<close>

definition filtered :: "manager \<Rightarrow> filters \<Rightarrow> endpoint list" where
  "filtered mg f =
     (let l0 = endpoints mg;
          l1 = (case f_method f of
                  None \<Rightarrow> l0
                | Some m \<Rightarrow> if m = [] then l0 else filter (\<lambda>e. e_method e = toUpperCase m) l0);
          l2 = (case f_authenticated f of
                  None \<Rightarrow> l1
                | Some a \<Rightarrow> filter (\<lambda>e. e_authentication e = a) l1);
          l3 = (case f_tag f of
                  None \<Rightarrow> l2
                | Some t \<Rightarrow> if t = [] then l2 else filter (\<lambda>e. t \<in> set (e_tags e)) l2);
          l4 = (case f_deprecated f of
                  None \<Rightarrow> l3
                | Some d \<Rightarrow> filter (\<lambda>e. e_deprecated e = d) l3)
      in l4)"

text \<open>The property read \<^verbatim>\<open>a[filters.sortBy]\<close> on an endpoint.\<close>

fun param_value :: "param \<Rightarrow> jsval" where
  "param_value (PName n) = JStr n"
| "param_value (PSpec ps) = JObj"
| "param_value POther = JUndefined"

definition endpoint_field :: "endpoint \<Rightarrow> string \<Rightarrow> jsval" where
  "endpoint_field e k =
     (if k = ''path'' then (case e_path e of None \<Rightarrow> JUndefined | Some s \<Rightarrow> JStr s)
      else if k = ''name'' then JStr (e_name e)
      else if k = ''description'' then JStr (e_description e)
      else if k = ''authentication'' then JBool (e_authentication e)
      else if k = ''method'' then JStr (e_method e)
      else if k = ''tags'' then JArr (map JStr (e_tags e))
      else if k = ''parameter'' then JArr (map param_value (e_parameter e))
      else if k = ''version'' then JStr (e_version e)
      else if k = ''deprecated'' then JBool (e_deprecated e)
      else if k = ''rateLimit'' then (case e_rateLimit e of None \<Rightarrow> JNull | Some r \<Rightarrow> JObj)
      else if k = ''timeout'' then JNum (int (e_timeout e))
      else JUndefined)"

text \<open>The string conversion \<^verbatim>\<open>String(v)\<close>.\<close>

fun intersperse :: "string \<Rightarrow> string list \<Rightarrow> string" where
  "intersperse sep [] = []"
| "intersperse sep [x] = x"
| "intersperse sep (x # y # ys) = x @ sep @ intersperse sep (y # ys)"

fun js_String :: "jsval \<Rightarrow> string" where
  "js_String JUndefined = ''undefined''"
| "js_String JNull = ''null''"
| "js_String (JBool b) = (if b then ''true'' else ''false'')"
| "js_String (JNum n) = show_int n"
| "js_String (JStr s) = s"
| "js_String (JArr xs) =
     intersperse '',''
       (map (\<lambda>x. if x = JUndefined \<or> x = JNull then [] else js_String x) xs)"
| "js_String JObj = ''[object Object]''"
| "js_String (JFun n) = ''function () { [native code] }''"

text \<open>
  \<^verbatim>\<open>x.localeCompare(y)\<close>: a receiver that is not a string has no such method and
  the call throws; a string receiver compares itself with its argument as a string.
\<close>

fun js_localeCompare :: "host \<Rightarrow> jsval \<Rightarrow> jsval \<Rightarrow> js_error + int" where
  "js_localeCompare h (JStr a) y = Inr (localeCompare h a (js_String y))"
| "js_localeCompare h x y = Inl TypeError"

definition comparator :: "host \<Rightarrow> filters \<Rightarrow> string \<Rightarrow> endpoint \<Rightarrow> endpoint \<Rightarrow> js_error + int" where
  "comparator h f k a b =
     (let aVal = endpoint_field a k; bVal = endpoint_field b k
      in if f_sortOrder f = Some ''desc'' then js_localeCompare h bVal aVal
         else js_localeCompare h aVal bVal)"

text \<open>
  \<^verbatim>\<open>Array.prototype.sort\<close> with a comparator that may throw: a stable insertion
  sort. A list shorter than two is returned without a call of the comparator.
\<close>

fun insert_by :: "('a \<Rightarrow> 'a \<Rightarrow> js_error + int) \<Rightarrow> 'a \<Rightarrow> 'a list \<Rightarrow> js_error + 'a list" where
  "insert_by cmp x [] = Inr [x]"
| "insert_by cmp x (y # ys) =
     andThen (cmp x y) (\<lambda>c.
       if c \<le> 0 then Inr (x # y # ys)
       else andThen (insert_by cmp x ys) (\<lambda>r. Inr (y # r)))"

fun sort_by :: "('a \<Rightarrow> 'a \<Rightarrow> js_error + int) \<Rightarrow> 'a list \<Rightarrow> js_error + 'a list" where
  "sort_by cmp [] = Inr []"
| "sort_by cmp (x # xs) = andThen (sort_by cmp xs) (insert_by cmp x)"

definition getEndpoints :: "host \<Rightarrow> manager \<Rightarrow> filters \<Rightarrow> js_error + endpoint list" where
  "getEndpoints h mg f =
     (case f_sortBy f of
        None \<Rightarrow> Inr (filtered mg f)
      | Some k \<Rightarrow>
          if k = [] then Inr (filtered mg f)
          else sort_by (comparator h f k) (filtered mg f))"

section \<open>The hot-reload watcher\<close>

text \<open>
  The fields of \<^verbatim>\<open>ApplicationServer\<close> in \<^verbatim>\<open>app.js\<close> that hot reload
  works on. \<^verbatim>\<open>pluginReloadTimeout\<close> is the one timer handle: the file name its
  callback has captured and the time at which it is due, or nothing once it has
  fired or before the first change. \<open>reloaded\<close> lists the files passed to
  \<^verbatim>\<open>reloadPlugin\<close> so far. Time is in milliseconds.
\<close>

record watcher =
  pluginReloadTimeout :: "(string \<times> nat) option"
  isShuttingDown :: bool
  reloaded :: "string list"

definition endsWith :: "string \<Rightarrow> string \<Rightarrow> bool" where
  "endsWith s suffix =
     (length suffix \<le> length s \<and> drop (length s - length suffix) s = suffix)"

text \<open>
  \<^verbatim>\<open>debouncePluginReload(filename)\<close> at time \<open>now\<close>:
  \<^verbatim>\<open>clearTimeout(this.pluginReloadTimeout)\<close>, then a new timer of 1000 ms.
\<close>

definition debouncePluginReload :: "watcher \<Rightarrow> string \<Rightarrow> nat \<Rightarrow> watcher" where
  "debouncePluginReload w filename now = w\<lparr>pluginReloadTimeout := Some (filename, now + 1000)\<rparr>"

text \<open>The callback given to \<^verbatim>\<open>fs.watch\<close>; the file name may be missing.\<close>

definition on_change :: "watcher \<Rightarrow> string option \<Rightarrow> nat \<Rightarrow> watcher" where
  "on_change w filename now =
     (case filename of
        None \<Rightarrow> w
      | Some fn \<Rightarrow>
          if fn \<noteq> [] \<and> endsWith fn ''.js'' \<and> \<not> isShuttingDown w
          then debouncePluginReload w fn now
          else w)"

text \<open>The event loop at time \<open>now\<close>: a timer that is due runs its callback.\<close>

definition fire :: "watcher \<Rightarrow> nat \<Rightarrow> watcher" where
  "fire w now =
     (case pluginReloadTimeout w of
        None \<Rightarrow> w
      | Some (fn, due) \<Rightarrow>
          if due \<le> now then w\<lparr>pluginReloadTimeout := None, reloaded := reloaded w @ [fn]\<rparr>
          else w)"

text \<open>
  A run of the watcher over change events in time order, then on until no timer is
  pending.
\<close>

fun watch :: "watcher \<Rightarrow> (nat \<times> string option) list \<Rightarrow> watcher" where
  "watch w [] =
     (case pluginReloadTimeout w of None \<Rightarrow> w | Some (fn, due) \<Rightarrow> fire w due)"
| "watch w ((now, filename) # evs) = watch (on_change (fire w now) filename now) evs"

section \<open>Notions used in the properties\<close>

text \<open>A request passes the first two stages of a plugin's pipeline.\<close>

definition passes :: "host \<Rightarrow> plugin \<Rightarrow> request \<Rightarrow> bool" where
  "passes h p req \<longleftrightarrow>
     (authentication p \<longrightarrow> validateAuthentication h req = AuthValid)
     \<and> validateParameters h p req = Inr []"

text \<open>
  What one entry of \<^verbatim>\<open>plugin.parameter\<close> adds to an empty \<^verbatim>\<open>errors\<close> array
  (nothing when its check throws).
\<close>

definition violations_of :: "host \<Rightarrow> (string \<Rightarrow> jsval) \<Rightarrow> param \<Rightarrow> violation list" where
  "violations_of h source x = (case check_param h source x [] of Inl e \<Rightarrow> [] | Inr es \<Rightarrow> es)"


text \<open>
  The endpoint fields that hold strings and the ones that hold something else
  (\<^verbatim>\<open>path\<close> is apart: it is a string once the descriptor has been validated).
\<close>

definition string_fields :: "string set" where
  "string_fields = {''name'', ''description'', ''method'', ''version''}"

definition other_fields :: "string set" where
  "other_fields =
     {''authentication'', ''tags'', ''parameter'', ''deprecated'', ''rateLimit'', ''timeout''}"

text \<open>
  The \<open>(path, method)\<close> pair of a Route Entry as the stack has it, and the statement
  that a registry call does not mount a route on a \<open>(path, method)\<close> pair that the
  stack already holds once the file's own old route is gone.
\<close>

definition route_key :: "route \<Rightarrow> string option \<times> string" where
  "route_key r = (routePath r, toLowerCase (route_method r))"

fun collision_free :: "manager \<times> app \<Rightarrow> event \<Rightarrow> bool" where
  "collision_free s (Unregister file) = True"
| "collision_free s (Load file None) = True"
| "collision_free s (Load file (Some NotObject)) = True"
| "collision_free s (Load file (Some (Module p))) =
     (validatePlugin (Module p) file = [] \<longrightarrow>
        plugin_key p \<notin> set (route_keys (router_stack (snd (unregisterPlugin s file)))))"

fun collision_free_run :: "manager \<times> app \<Rightarrow> event list \<Rightarrow> bool" where
  "collision_free_run s [] = True"
| "collision_free_run s (ev # evs) = (collision_free s ev \<and> collision_free_run (step s ev) evs)"

text \<open>
  The registry and the stack agree: no pair twice on the stack, every Route Entry on
  the stack, and no two files with the same pair.
\<close>

definition registry_inv :: "manager \<times> app \<Rightarrow> bool" where
  "registry_inv s \<longleftrightarrow>
     distinct (route_keys (router_stack (snd s)))
     \<and> (\<forall>f r. routes (fst s) f = Some r \<longrightarrow>
            route_key r \<in> set (route_keys (router_stack (snd s))))
     \<and> (\<forall>f g r r'. routes (fst s) f = Some r \<and> routes (fst s) g = Some r'
            \<and> route_key r = route_key r' \<longrightarrow> f = g)"

section \<open>Example data\<close>

text \<open>
  The bundled plugin \<^verbatim>\<open>ping\<close>, a client, and a host whose regular expressions
  accept everything and whose token is \<^verbatim>\<open>s3cret\<close>.
\<close>

definition ping :: plugin where
  "ping =
     \<lparr>path = Some ''/api/ping'', http_method = Some ''GET'', name = Some ''ping'',
      description = Some ''ngetes api ygy'', authentication = False, tags = [],
      parameter = [PSpec \<lparr>p_name = ''message'', p_required = Some False,
                          p_type = Some ''text'', p_min = None, p_max = None,
                          p_pattern = None\<rparr>],
      rateLimit = Some [''limit'' \<mapsto> 10, ''window'' \<mapsto> 60000], timeout = Some 5000,
      version = None, deprecated = False,
      exec = Some (\<lambda>req. \<lparr>sent = Some (Json 200 (Payload ''success'')), settles = Resolves 0\<rparr>)\<rparr>"

definition client :: request where
  "client =
     \<lparr>authorization = None, query = (\<lambda>k. JUndefined), body = (\<lambda>k. JUndefined),
      ip = ''10.0.0.7''\<rparr>"

definition node :: host where
  "node =
     \<lparr>isNaN_Number = (\<lambda>v. False), email_test = (\<lambda>v. True), url_test = (\<lambda>v. True),
      RegExp_test = (\<lambda>p v. Some True), TOKEN = Some ''s3cret'',
      localeCompare = (\<lambda>a b. 0)\<rparr>"

text \<open>The same plugin behind the bearer token, with one required parameter.\<close>

definition secured :: plugin where
  "secured = ping\<lparr>authentication := True, parameter := [PName ''message'']\<rparr>"

text \<open>A limit of one request a second, and a store in which the client has used it.\<close>

definition strict :: plugin where
  "strict = secured\<lparr>rateLimit := Some [''limit'' \<mapsto> 1, ''window'' \<mapsto> 1000]\<rparr>"

definition spent :: store where
  "spent = [''10.0.0.7-ping'' \<mapsto> [0]]"

text \<open>
  Two descriptors that limit to three requests a second: one names the window
  \<^verbatim>\<open>windowMs\<close>, the other \<^verbatim>\<open>window\<close> as the bundled plugins do.
\<close>

definition windowMs_plugin :: plugin where
  "windowMs_plugin = ping\<lparr>rateLimit := Some [''limit'' \<mapsto> 3, ''windowMs'' \<mapsto> 1000]\<rparr>"

definition window_plugin :: plugin where
  "window_plugin = ping\<lparr>rateLimit := Some [''limit'' \<mapsto> 3, ''window'' \<mapsto> 1000]\<rparr>"



text \<open>A server that watches its plugin directory and has seen no change yet.\<close>

definition idle :: watcher where
  "idle = \<lparr>pluginReloadTimeout = None, isShuttingDown = False, reloaded = []\<rparr>"

text \<open>
  The registry after \<^verbatim>\<open>ping.js\<close> has been loaded into a fresh manager, and a
  listing sorted by \<^verbatim>\<open>deprecated\<close>.
\<close>

definition one_plugin :: "manager \<times> app" where
  "one_plugin = fst (loadPlugin (init 0) ''ping.js'' (Some (Module ping)))"

text \<open>The bundled plugin \<^verbatim>\<open>docs\<close>, loaded after \<^verbatim>\<open>ping\<close>.\<close>

definition docs :: plugin where
  "docs =
     \<lparr>path = Some ''/docs'', http_method = Some ''GET'', name = Some ''docs'',
      description = Some ''documentation  page'', authentication = False, tags = [''main''],
      parameter = [], rateLimit = Some [''limit'' \<mapsto> 10, ''window'' \<mapsto> 60000],
      timeout = Some 5000, version = None, deprecated = False,
      exec = Some (\<lambda>req. \<lparr>sent = Some (Json 200 (Payload ''index'')), settles = Resolves 0\<rparr>)\<rparr>"

definition two_plugins :: "manager \<times> app" where
  "two_plugins = fst (loadPlugin one_plugin ''docs.js'' (Some (Module docs)))"

definition by_deprecated :: filters where
  "by_deprecated =
     \<lparr>f_method = None, f_authenticated = None, f_tag = None, f_deprecated = None,
      f_sortBy = Some ''deprecated'', f_sortOrder = None\<rparr>"

text \<open>A host that keeps its router out of \<^verbatim>\<open>app._router\<close>.\<close>

definition hidden_router :: app where
  "hidden_router = \<lparr>router_stack = [], exposes_router = False, mountable = (\<lambda>rp. True)\<rparr>"

section \<open>Properties of the rate limiter\<close>

lemma ceil_div_1000_ceiling: "ceil_div_1000 a = \<lceil>real_of_int a / 1000\<rceil>"
  unfolding ceil_div_1000_def using ceiling_divide_eq_div[where 'a=real, of a 1000] by simp

lemma fold_min_Min: "fold min xs (x::int) = Min (set (x # xs))"
  using Min.set_eq_fold[of x xs] by simp

lemma Math_min_nonempty: "xs \<noteq> [] \<Longrightarrow> Math_min xs = Num (Min (set xs))"
  by (cases xs) (simp_all add: fold_min_Min del: Min_insert)

lemma at_limit_nonempty: "at_limit (Some l) valid \<Longrightarrow> 0 < l \<Longrightarrow> valid \<noteq> []"
  by (auto simp: at_limit_def)

lemma validRequests_undefined: "validRequests None now rs = []"
  by (simp add: validRequests_def)

text \<open>
  Claim C4. Let \<open>valid\<close> be the stored timestamps of the key that survive the
  pruning at \<open>now\<close>. When \<open>valid\<close> has at least \<open>limit\<close> entries the call denies, gives
  back the store it was given, and the retry hint is
  \<open>\<lceil>(window - (now - oldest)) / 1000\<rceil>\<close> for the oldest (smallest) surviving timestamp,
  which exists whenever the limit is positive. Otherwise the call allows, stores exactly
  \<open>valid\<close> with \<open>now\<close> appended under the key, and that sequence has at most \<open>limit\<close>
  entries.
\<close>

theorem checkRateLimit_denies_or_appends:
  assumes "rateLimit p = Some rl"
    and "valid = validRequests (rl ''window'') now
                   (case st (rate_key req p) of None \<Rightarrow> [] | Some r \<Rightarrow> r)"
  shows "(at_limit (rl ''limit'') valid \<longrightarrow>
            checkRateLimit st req p now =
              Inr (st, Denied (retryAfter (rl ''window'') now (Math_min valid)))
          \<and> (\<forall>w. rl ''window'' = Some w \<and> valid \<noteq> [] \<longrightarrow>
                retryAfter (rl ''window'') now (Math_min valid) =
                  Num \<lceil>real_of_int (w - (now - Min (set valid))) / 1000\<rceil>)
          \<and> (\<forall>l. rl ''limit'' = Some l \<and> 0 < l \<longrightarrow>
                valid \<noteq> [] \<and> rl ''window'' \<noteq> None))
       \<and> (\<not> at_limit (rl ''limit'') valid \<longrightarrow>
            checkRateLimit st req p now = Inr (st(rate_key req p \<mapsto> valid @ [now]), Allowed)
          \<and> (\<forall>l. rl ''limit'' = Some l \<longrightarrow> int (length (valid @ [now])) \<le> l))"
proof (intro conjI impI allI)
  assume "at_limit (rl ''limit'') valid"
  then show "checkRateLimit st req p now =
      Inr (st, Denied (retryAfter (rl ''window'') now (Math_min valid)))"
    using assms by (simp add: checkRateLimit_def Let_def)
next
  fix w assume "rl ''window'' = Some w \<and> valid \<noteq> []"
  then show "retryAfter (rl ''window'') now (Math_min valid) =
      Num \<lceil>real_of_int (w - (now - Min (set valid))) / 1000\<rceil>"
    by (simp add: retryAfter_def Math_min_nonempty ceil_div_1000_ceiling)
next
  fix l assume a: "at_limit (rl ''limit'') valid" and l: "rl ''limit'' = Some l \<and> 0 < l"
  then show "valid \<noteq> []" using at_limit_nonempty by auto
  then show "rl ''window'' \<noteq> None"
    using assms(2) validRequests_undefined by (cases "rl ''window''") simp_all
next
  assume "\<not> at_limit (rl ''limit'') valid"
  then show "checkRateLimit st req p now = Inr (st(rate_key req p \<mapsto> valid @ [now]), Allowed)"
    using assms by (simp add: checkRateLimit_def Let_def)
next
  fix l assume "\<not> at_limit (rl ''limit'') valid" "rl ''limit'' = Some l"
  then show "int (length (valid @ [now])) \<le> l" by (simp add: at_limit_def)
qed

theorem checkRateLimit_denies_or_appends_witness:
  "checkRateLimit [''10.0.0.7-ping'' \<mapsto> [100, 200]] client
     (ping\<lparr>rateLimit := Some [''limit'' \<mapsto> 2, ''window'' \<mapsto> 1000]\<rparr>) 700
   = Inr ([''10.0.0.7-ping'' \<mapsto> [100, 200]], Denied (Num 1))"
  using checkRateLimit_denies_or_appends
    [of "ping\<lparr>rateLimit := Some [''limit'' \<mapsto> 2, ''window'' \<mapsto> 1000]\<rparr>"
        "[''limit'' \<mapsto> 2, ''window'' \<mapsto> 1000]" "[100, 200]" 700
        "[''10.0.0.7-ping'' \<mapsto> [100, 200]]" client]
  by (simp add: ping_def client_def rate_key_def validRequests_def at_limit_def
        retryAfter_def ceil_div_1000_def)

section \<open>Properties of authentication\<close>







section \<open>Properties of the guard pipeline\<close>

lemma checkRateLimit_Denied_store:
  "checkRateLimit st req p now = Inr (st', Denied r) \<Longrightarrow> st' = st"
  by (auto simp: checkRateLimit_def Let_def split: option.splits if_splits)

lemma validateParameters_exec [simp]:
  "validateParameters h (p\<lparr>exec := e\<rparr>) req = validateParameters h p req"
  by (simp add: validateParameters_def param_source_def)

lemma rate_key_exec [simp]: "rate_key req (p\<lparr>exec := e\<rparr>) = rate_key req p"
  by (simp add: rate_key_def)

lemma checkRateLimit_exec [simp]:
  "checkRateLimit st req (p\<lparr>exec := e\<rparr>) now = checkRateLimit st req p now"
  by (simp add: checkRateLimit_def Let_def split: option.splits)

text \<open>
  Claim C5. The handler runs authentication (when the plugin asks for it), then
  parameter validation, then the rate limiter (when one is configured), then
  \<^verbatim>\<open>exec\<close>, and stops at the first stage that fails: a request that fails
  authentication gets the status of that failure, leaves the store as it was and gets
  the same answer whatever \<^verbatim>\<open>exec\<close> is; a request that fails parameter validation
  is answered 400 from any store, so also from one in which the client is over its
  limit; a validation that throws is answered 500; a denial by the limiter is answered
  429; in each of these \<^verbatim>\<open>exec\<close> plays no part. Only a request that passes all
  of them reaches \<^verbatim>\<open>exec\<close>.
\<close>

theorem guard_pipeline_short_circuits:
  "(\<forall>status msg e. authentication p \<and> validateAuthentication h req = AuthInvalid status msg \<longrightarrow>
      withValidation h (p\<lparr>exec := e\<rparr>) st req now = (st, Stopped (Json status (ErrorBody msg))))
   \<and> (\<forall>errs e. (authentication p \<longrightarrow> validateAuthentication h req = AuthValid)
        \<and> validateParameters h p req = Inr errs \<and> errs \<noteq> [] \<longrightarrow>
      withValidation h (p\<lparr>exec := e\<rparr>) st req now =
        (st, Stopped (Json 400 (ValidationBody ''Validation failed'' (map message errs)))))
   \<and> (\<forall>err e. (authentication p \<longrightarrow> validateAuthentication h req = AuthValid)
        \<and> validateParameters h p req = Inl err \<longrightarrow>
      withValidation h (p\<lparr>exec := e\<rparr>) st req now = (st, Stopped internal_error))
   \<and> (\<forall>st' r e. (authentication p \<longrightarrow> validateAuthentication h req = AuthValid)
        \<and> validateParameters h p req = Inr [] \<and> rateLimit p \<noteq> None
        \<and> checkRateLimit st req p now = Inr (st', Denied r) \<longrightarrow>
      st' = st \<and>
      withValidation h (p\<lparr>exec := e\<rparr>) st req now =
        (st, Stopped (Json 429 (RateLimitBody ''Rate limit exceeded'' r))))
   \<and> (\<forall>st' f. (authentication p \<longrightarrow> validateAuthentication h req = AuthValid)
        \<and> validateParameters h p req = Inr []
        \<and> (if rateLimit p = None then st' = st
            else checkRateLimit st req p now = Inr (st', Allowed))
        \<and> exec p = Some f \<longrightarrow>
      withValidation h p st req now = (st', Executed (run_exec p f req)))"
proof (intro conjI allI impI)
  fix status msg e
  assume "authentication p \<and> validateAuthentication h req = AuthInvalid status msg"
  then show "withValidation h (p\<lparr>exec := e\<rparr>) st req now = (st, Stopped (Json status (ErrorBody msg)))"
    by (simp add: withValidation_def)
next
  fix errs e
  assume "(authentication p \<longrightarrow> validateAuthentication h req = AuthValid)
        \<and> validateParameters h p req = Inr errs \<and> errs \<noteq> []"
  then show "withValidation h (p\<lparr>exec := e\<rparr>) st req now =
        (st, Stopped (Json 400 (ValidationBody ''Validation failed'' (map message errs))))"
    by (simp add: withValidation_def param_stage_def)
next
  fix err e
  assume "(authentication p \<longrightarrow> validateAuthentication h req = AuthValid)
        \<and> validateParameters h p req = Inl err"
  then show "withValidation h (p\<lparr>exec := e\<rparr>) st req now = (st, Stopped internal_error)"
    by (simp add: withValidation_def param_stage_def)
next
  fix st' r e
  assume a: "(authentication p \<longrightarrow> validateAuthentication h req = AuthValid)
        \<and> validateParameters h p req = Inr [] \<and> rateLimit p \<noteq> None
        \<and> checkRateLimit st req p now = Inr (st', Denied r)"
  then show s: "st' = st" using checkRateLimit_Denied_store by blast
  show "withValidation h (p\<lparr>exec := e\<rparr>) st req now =
        (st, Stopped (Json 429 (RateLimitBody ''Rate limit exceeded'' r)))"
    using a s by (auto simp add: withValidation_def param_stage_def rate_stage_def)
next
  fix st' f
  assume a: "(authentication p \<longrightarrow> validateAuthentication h req = AuthValid)
        \<and> validateParameters h p req = Inr []
        \<and> (if rateLimit p = None then st' = st
            else checkRateLimit st req p now = Inr (st', Allowed))
        \<and> exec p = Some f"
  then show "withValidation h p st req now = (st', Executed (run_exec p f req))"
    by (auto simp add: withValidation_def param_stage_def rate_stage_def execute_def split: if_splits)
qed

theorem guard_pipeline_short_circuits_witness:
  "withValidation node strict spent client 10 =
     (spent, Stopped (Json 401 (ErrorBody ''Authorization header is required'')))
   \<and> withValidation node strict spent (client\<lparr>authorization := Some ''Bearer s3cret''\<rparr>) 10 =
     (spent, Stopped (Json 400 (ValidationBody ''Validation failed''
        [''Parameter '' @ sq @ ''message'' @ sq @ '' is required''])))
   \<and> withValidation node strict spent
       (client\<lparr>authorization := Some ''Bearer s3cret'', query := (\<lambda>k. JStr ''hi'')\<rparr>) 10 =
     (spent, Stopped (Json 429 (RateLimitBody ''Rate limit exceeded'' (Num 1))))"
  using guard_pipeline_short_circuits[of strict node client spent 10]
    guard_pipeline_short_circuits[of strict node "client\<lparr>authorization := Some ''Bearer s3cret''\<rparr>" spent 10]
    guard_pipeline_short_circuits[of strict node
       "client\<lparr>authorization := Some ''Bearer s3cret'', query := (\<lambda>k. JStr ''hi'')\<rparr>" spent 10]
  by (simp add: strict_def spent_def secured_def ping_def client_def node_def startsWith_def withValidation_def
       validateAuthentication_def param_stage_def validateParameters_def param_source_def property_def Object_prototype_def
       toUpperCase_def toUpperCase_char_def andThen_def rate_stage_def checkRateLimit_def
       rate_key_def validRequests_def at_limit_def retryAfter_def ceil_div_1000_def)

section \<open>The sliding window through the pipeline\<close>

lemma withValidation_limited:
  assumes "passes h p req" and "rateLimit p = Some rl" and "exec p = Some f"
    and "rate_key req p = k"
  shows "withValidation h p st req now =
     (let valid = validRequests (rl ''window'') now (case st k of None \<Rightarrow> [] | Some r \<Rightarrow> r)
      in if at_limit (rl ''limit'') valid
         then (st, Stopped (Json 429 (RateLimitBody ''Rate limit exceeded''
                 (retryAfter (rl ''window'') now (Math_min valid)))))
         else (st(k \<mapsto> valid @ [now]), Executed (run_exec p f req)))"
  using assms
  by (auto simp add: passes_def withValidation_def param_stage_def rate_stage_def
        checkRateLimit_def execute_def Let_def)

text \<open>
  Claim C3, as stated: the descriptor carries \<^verbatim>\<open>rateLimit = {limit: 3, windowMs: 1000}\<close>.
  \<^verbatim>\<open>checkRateLimit\<close> reads the property \<^verbatim>\<open>window\<close>, which this descriptor does not
  have, so no stored timestamp ever survives the pruning and no request is denied:
  the fourth request of a client, 300 ms after its first, reaches \<^verbatim>\<open>exec\<close>.
\<close>

theorem windowMs_never_denies:
  "serve node windowMs_plugin Map.empty [(client, 0), (client, 100), (client, 200), (client, 300)]
     = [Executed (Some (Json 200 (Payload ''success''))), Executed (Some (Json 200 (Payload ''success''))),
        Executed (Some (Json 200 (Payload ''success''))), Executed (Some (Json 200 (Payload ''success'')))]"
  by (simp add: windowMs_plugin_def ping_def client_def node_def withValidation_def
       param_stage_def validateParameters_def param_source_def property_def Object_prototype_def
       toUpperCase_def toUpperCase_char_def andThen_def rate_stage_def checkRateLimit_def
       rate_key_def validRequests_def at_limit_def execute_def run_exec_def)

text \<open>
  Claim C3, amended: with \<^verbatim>\<open>rateLimit = {limit: 3, window: 1000}\<close>, a client without
  stored timestamps whose requests all pass authentication and parameter validation has
  its first three requests executed, its fourth request within 1000 ms of the first
  denied with 429 (retry after one second), and a later request, 1000 ms or more after
  the first, executed.
\<close>

theorem fourth_request_in_window_denied:
  assumes "rateLimit p = Some rl" and "rl ''limit'' = Some 3" and "rl ''window'' = Some 1000"
    and "exec p = Some f"
    and "passes h p r1" and "passes h p r2" and "passes h p r3" and "passes h p r4"
    and "passes h p r5"
    and "ip r2 = ip r1" and "ip r3 = ip r1" and "ip r4 = ip r1" and "ip r5 = ip r1"
    and "st (rate_key r1 p) = None"
    and "t1 \<le> t2" and "t2 \<le> t3" and "t3 \<le> t4" and "t4 < t1 + 1000" and "t1 + 1000 \<le> t5"
  shows "serve h p st [(r1, t1), (r2, t2), (r3, t3), (r4, t4), (r5, t5)] =
     [Executed (run_exec p f r1), Executed (run_exec p f r2), Executed (run_exec p f r3),
      Stopped (Json 429 (RateLimitBody ''Rate limit exceeded'' (Num 1))),
      Executed (run_exec p f r5)]"
proof -
  define k where "k = rate_key r1 p"
  have k: "rate_key r1 p = k" "rate_key r2 p = k" "rate_key r3 p = k" "rate_key r4 p = k"
    "rate_key r5 p = k"
    using assms(10-13) by (simp_all add: k_def rate_key_def)
  note wv = withValidation_limited[OF _ assms(1) assms(4)]
  have s1: "withValidation h p st r1 t1 = (st(k \<mapsto> [t1]), Executed (run_exec p f r1))"
    using assms by (simp add: wv[OF assms(5) k(1)] k_def validRequests_def at_limit_def)
  have s2: "withValidation h p (st(k \<mapsto> [t1])) r2 t2 =
      (st(k \<mapsto> [t1, t2]), Executed (run_exec p f r2))"
    using assms by (simp add: wv[OF assms(6) k(2)] validRequests_def at_limit_def)
  have s3: "withValidation h p (st(k \<mapsto> [t1, t2])) r3 t3 =
      (st(k \<mapsto> [t1, t2, t3]), Executed (run_exec p f r3))"
    using assms by (simp add: wv[OF assms(7) k(3)] validRequests_def at_limit_def)
  have c: "ceil_div_1000 (1000 - (t4 - t1)) = 1"
    using assms(15-18) by (simp add: ceil_div_1000_def)
  have s4: "withValidation h p (st(k \<mapsto> [t1, t2, t3])) r4 t4 =
      (st(k \<mapsto> [t1, t2, t3]), Stopped (Json 429 (RateLimitBody ''Rate limit exceeded'' (Num 1))))"
    using assms c by (simp add: wv[OF assms(8) k(4)] validRequests_def at_limit_def retryAfter_def)
  have s5: "snd (withValidation h p (st(k \<mapsto> [t1, t2, t3])) r5 t5) = Executed (run_exec p f r5)"
    using assms by (simp add: wv[OF assms(9) k(5)] validRequests_def at_limit_def Let_def)
  show ?thesis
    using s1 s2 s3 s4 s5 by (simp add: split_beta)
qed

theorem fourth_request_in_window_denied_witness:
  "serve node window_plugin Map.empty
      [(client, 0), (client, 100), (client, 200), (client, 300), (client, 1000)]
     = [Executed (Some (Json 200 (Payload ''success''))), Executed (Some (Json 200 (Payload ''success''))),
        Executed (Some (Json 200 (Payload ''success''))),
        Stopped (Json 429 (RateLimitBody ''Rate limit exceeded'' (Num 1))),
        Executed (Some (Json 200 (Payload ''success'')))]"
  using fourth_request_in_window_denied[of window_plugin "[''limit'' \<mapsto> 3, ''window'' \<mapsto> 1000]"
     "\<lambda>req. \<lparr>sent = Some (Json 200 (Payload ''success'')), settles = Resolves 0\<rparr>" node
     client client client client client Map.empty 0 100 200 300 1000]
  by (simp add: passes_def window_plugin_def ping_def client_def node_def
       validateParameters_def param_source_def property_def Object_prototype_def toUpperCase_def toUpperCase_char_def andThen_def
       rate_key_def run_exec_def)

section \<open>Properties of parameter validation\<close>



















text \<open>
  What the amended claim leaves out: a name that \<^verbatim>\<open>Object.prototype\<close> supplies is
  read as the inherited method when the request does not carry it, so a required
  \<^verbatim>\<open>toString\<close> is not reported on an empty request.
\<close>

lemma inherited_name_read_from_prototype:
  "violations_of h (\<lambda>k. JUndefined) (PName ''toString'') = []"
  by (simp add: violations_of_def property_def Object_prototype_def)

section \<open>Unrecognised parameter types\<close>

lemma validateType_default:
  "t \<notin> {''string'', ''number'', ''boolean'', ''email'', ''url''} \<Longrightarrow> validateType h v t"
  by (simp add: validateType_def)

lemma validatePlugin_parameter:
  "validatePlugin (Module (p\<lparr>parameter := ps\<rparr>)) file = validatePlugin (Module p) file"
  by (simp add: validatePlugin_def)

lemma check_min_no_TypeMismatch:
  "check_min ps v acc = Inr es \<Longrightarrow> TypeMismatch n t \<in> set es \<Longrightarrow> TypeMismatch n t \<in> set acc"
  by (auto simp: check_min_def andThen_def split: option.splits sum.splits if_splits)

lemma check_max_no_TypeMismatch:
  "check_max ps v acc = Inr es \<Longrightarrow> TypeMismatch n t \<in> set es \<Longrightarrow> TypeMismatch n t \<in> set acc"
  by (auto simp: check_max_def andThen_def split: option.splits sum.splits if_splits)

lemma check_pattern_no_TypeMismatch:
  "check_pattern h ps v acc = Inr es \<Longrightarrow> TypeMismatch n t \<in> set es \<Longrightarrow> TypeMismatch n t \<in> set acc"
  by (auto simp: check_pattern_def split: option.splits if_splits)

lemma check_type_unrecognised:
  "p_type sp = Some t \<Longrightarrow> t \<notin> {''string'', ''number'', ''boolean'', ''email'', ''url''} \<Longrightarrow>
     check_type h sp v acc = acc"
  by (simp add: check_type_def validateType_default)

lemma unrecognised_no_TypeMismatch:
  assumes "p_type sp = Some t" and "t \<notin> {''string'', ''number'', ''boolean'', ''email'', ''url''}"
  shows "TypeMismatch n t' \<notin> set (violations_of h source (PSpec sp))"
proof
  assume "TypeMismatch n t' \<in> set (violations_of h source (PSpec sp))"
  then obtain es where es: "check_param h source (PSpec sp) [] = Inr es"
    "TypeMismatch n t' \<in> set es"
    by (cases "check_param h source (PSpec sp) []")
       (simp_all add: violations_of_def del: check_param.simps)
  define v where "v = property source (p_name sp)"
  have ct: "check_type h sp v [] = []" using assms by (rule check_type_unrecognised)
  from es have "andThen (check_min sp v []) (\<lambda>e2.
             andThen (check_max sp v e2) (\<lambda>e3. check_pattern h sp v e3)) = Inr es"
    by (auto simp: v_def[symmetric] ct Let_def split: if_splits)
  then obtain e2 e3 where "check_min sp v [] = Inr e2"
      "check_max sp v e2 = Inr e3" "check_pattern h sp v e3 = Inr es"
    by (auto simp: andThen_def split: sum.splits)
  with es(2) show False
    using check_pattern_no_TypeMismatch check_max_no_TypeMismatch check_min_no_TypeMismatch
    by fastforce
qed

text \<open>
  Claim C9. For a type name outside \<^verbatim>\<open>string\<close>, \<^verbatim>\<open>number\<close>, \<^verbatim>\<open>boolean\<close>,
  \<^verbatim>\<open>email\<close>, \<^verbatim>\<open>url\<close> (such as the \<^verbatim>\<open>text\<close> of the bundled plugins),
  \<^verbatim>\<open>validateType\<close> accepts every value; \<^verbatim>\<open>validatePlugin\<close> gives the same
  verdict whatever the descriptor's \<^verbatim>\<open>parameter\<close> list is, so it rejects no
  descriptor for such a type; and a parameter entry of such a type contributes no
  type-mismatch violation, whatever the request.
\<close>

theorem unrecognised_type_accepted:
  assumes "t \<notin> {''string'', ''number'', ''boolean'', ''email'', ''url''}"
  shows "validateType h v t
     \<and> validatePlugin (Module (p\<lparr>parameter := ps\<rparr>)) file = validatePlugin (Module p) file
     \<and> (\<forall>sp source n t'. p_type sp = Some t \<longrightarrow>
           TypeMismatch n t' \<notin> set (violations_of h source (PSpec sp)))"
proof (intro conjI allI impI)
  show "validateType h v t" using assms by (rule validateType_default)
  show "validatePlugin (Module (p\<lparr>parameter := ps\<rparr>)) file = validatePlugin (Module p) file"
    by (rule validatePlugin_parameter)
  fix sp :: pspec and source n t' assume "p_type sp = Some t"
  then show "TypeMismatch n t' \<notin> set (violations_of h source (PSpec sp))"
    using assms by (rule unrecognised_no_TypeMismatch)
qed

theorem unrecognised_type_accepted_witness:
  "validateType node (JNum 5) ''text''
   \<and> validatePlugin (Module ping) ''ping.js'' = []
   \<and> violations_of node (\<lambda>k. JNum 5) (hd (parameter ping)) = []"
  using unrecognised_type_accepted[of "''text''" node "JNum 5" "parameter ping" ping "''ping.js''"]
  by (simp add: ping_def validatePlugin_def allowedMethods_def toUpperCase_def toUpperCase_char_def
       startsWith_def violations_of_def property_def Object_prototype_def check_type_def
       check_min_def check_max_def
       check_pattern_def andThen_def validateType_def)

section \<open>Rejected descriptors\<close>

lemma loadPlugin_invalid:
  "validatePlugin ex file \<noteq> [] \<Longrightarrow> loadPlugin s file (Some ex) = (s, False)"
  by (simp add: loadPlugin_def)

text \<open>
  Claim C8. For a descriptor without \<^verbatim>\<open>path\<close>, without \<^verbatim>\<open>exec\<close>, or with a
  method that is none of GET, POST, PUT, DELETE, PATCH in any letter case,
  \<^verbatim>\<open>loadPlugin\<close> returns false and the state it leaves (routes map, plugins map,
  endpoints list and the router's stack) is the state it was given.
\<close>

theorem invalid_descriptor_rejected:
  assumes "path p = None \<or> exec p = None
            \<or> (\<exists>m. http_method p = Some m \<and> toUpperCase m \<notin> set allowedMethods)"
  shows "loadPlugin s file (Some (Module p)) = (s, False)"
proof -
  have "validatePlugin (Module p) file \<noteq> []"
    using assms by (auto simp: validatePlugin_def Let_def)
  then show ?thesis by (rule loadPlugin_invalid)
qed

theorem invalid_descriptor_rejected_witness:
  "loadPlugin (init 2) ''ping.js'' (Some (Module (ping\<lparr>http_method := Some ''fetch''\<rparr>))) = (init 2, False)"
  using invalid_descriptor_rejected[of "ping\<lparr>http_method := Some ''fetch''\<rparr>" "init 2" "''ping.js''"]
  by (simp add: ping_def allowedMethods_def toUpperCase_def toUpperCase_char_def)

section \<open>Properties of the hot-reload watcher\<close>

text \<open>
  Changes of one file within the quiescence window collapse into one reload of it.
\<close>

lemma same_file_changes_collapse:
  assumes "endsWith fn ''.js''" and "fn \<noteq> []" and "t1 \<le> t2" and "t2 < t1 + 1000"
  shows "reloaded (watch idle [(t1, Some fn), (t2, Some fn)]) = [fn]"
  using assms by (simp add: idle_def on_change_def fire_def debouncePluginReload_def)

text \<open>
  Claim C2. Change events for two different plugin files in one quiescence window:
  \<^verbatim>\<open>a.js\<close> at 0 ms and \<^verbatim>\<open>b.js\<close> at 500 ms. The second call of
  \<^verbatim>\<open>debouncePluginReload\<close> clears the one timer, which had \<^verbatim>\<open>a.js\<close> in its
  callback, so when the watcher has come to rest only \<^verbatim>\<open>b.js\<close> has been reloaded.
\<close>

theorem single_timer_drops_first_file:
  "reloaded (watch idle [(0, Some ''a.js''), (500, Some ''b.js'')]) = [''b.js'']"
  by (simp add: idle_def on_change_def fire_def debouncePluginReload_def endsWith_def)

section \<open>Properties of the endpoint listing\<close>

lemma other_field_not_string:
  "k \<in> other_fields \<Longrightarrow> endpoint_field e k \<noteq> JStr s"
  by (auto simp: other_fields_def endpoint_field_def split: option.splits)

lemma string_field_string:
  "k \<in> string_fields \<Longrightarrow> \<exists>s. endpoint_field e k = JStr s"
  by (auto simp: string_fields_def endpoint_field_def)

lemma js_localeCompare_not_string:
  "(\<And>s. x \<noteq> JStr s) \<Longrightarrow> js_localeCompare h x y = Inl TypeError"
  by (cases x) auto

lemma comparator_other:
  "k \<in> other_fields \<Longrightarrow> comparator h f k a b = Inl TypeError"
  by (simp add: comparator_def Let_def js_localeCompare_not_string other_field_not_string)

lemma comparator_string:
  "\<exists>s. endpoint_field a k = JStr s \<Longrightarrow> \<exists>s. endpoint_field b k = JStr s \<Longrightarrow>
     \<exists>c. comparator h f k a b = Inr c"
  by (auto simp: comparator_def Let_def)

lemma insert_by_throws:
  "(\<And>a b. cmp a b = Inl TypeError) \<Longrightarrow> ys \<noteq> [] \<Longrightarrow> insert_by cmp x ys = Inl TypeError"
  by (cases ys) (simp_all add: andThen_def)

lemma insert_by_length: "insert_by cmp x ys = Inr r \<Longrightarrow> length r = Suc (length ys)"
  by (induction ys arbitrary: r) (auto simp: andThen_def split: sum.splits if_splits)

lemma sort_by_length: "sort_by cmp xs = Inr r \<Longrightarrow> length r = length xs"
proof (induction xs arbitrary: r)
  case Nil
  then show ?case by simp
next
  case (Cons x xs)
  then obtain r' where "sort_by cmp xs = Inr r'" "insert_by cmp x r' = Inr r"
    by (auto simp: andThen_def split: sum.splits)
  then show ?case using Cons.IH insert_by_length by fastforce
qed

lemma sort_by_throws:
  assumes "\<And>a b. cmp a b = Inl TypeError" and "2 \<le> length xs"
  shows "sort_by cmp xs = Inl TypeError"
  using assms(2)
proof (induction xs)
  case Nil
  then show ?case by simp
next
  case (Cons x xs)
  show ?case
  proof (cases "sort_by cmp xs")
    case (Inl e)
    have "xs \<noteq> []" using Cons.prems by auto
    then have "2 \<le> length xs \<or> (\<exists>y. xs = [y])"
      by (cases xs) (auto simp: Suc_le_eq)
    then have "e = TypeError" using Inl Cons.IH by (auto simp: andThen_def)
    with Inl show ?thesis by (simp add: andThen_def)
  next
    case (Inr r)
    then have "length r = length xs" by (rule sort_by_length)
    then have "r \<noteq> []" using Cons.prems by auto
    then show ?thesis using Inr insert_by_throws[OF assms(1)] by (simp add: andThen_def)
  qed
qed

lemma sort_by_short: "length xs < 2 \<Longrightarrow> sort_by cmp xs = Inr xs"
  by (cases xs) (auto simp: andThen_def)

lemma insert_by_total:
  "(\<And>b. b \<in> set ys \<Longrightarrow> \<exists>c. cmp x b = Inr c) \<Longrightarrow>
     \<exists>r. insert_by cmp x ys = Inr r \<and> mset r = add_mset x (mset ys)"
proof (induction ys)
  case Nil
  then show ?case by simp
next
  case (Cons y ys)
  have "\<exists>c. cmp x y = Inr c" by (rule Cons.prems) simp
  then obtain c where c: "cmp x y = Inr c" ..
  have "\<exists>r. insert_by cmp x ys = Inr r \<and> mset r = add_mset x (mset ys)"
    by (rule Cons.IH) (simp add: Cons.prems)
  then obtain r where r: "insert_by cmp x ys = Inr r" "mset r = add_mset x (mset ys)" by blast
  show ?case
  proof (cases "c \<le> 0")
    case True
    then show ?thesis using c by (simp add: andThen_def)
  next
    case False
    then show ?thesis using c r by (simp add: andThen_def)
  qed
qed

lemma sort_by_total:
  "(\<And>a b. a \<in> set xs \<Longrightarrow> b \<in> set xs \<Longrightarrow> \<exists>c. cmp a b = Inr c) \<Longrightarrow>
     \<exists>r. sort_by cmp xs = Inr r \<and> mset r = mset xs"
proof (induction xs)
  case Nil
  then show ?case by simp
next
  case (Cons x xs)
  have "\<exists>r. sort_by cmp xs = Inr r \<and> mset r = mset xs"
    by (rule Cons.IH) (simp add: Cons.prems)
  then obtain r where r: "sort_by cmp xs = Inr r" "mset r = mset xs" by blast
  have "set r = set xs" using r(2) by (rule mset_eq_setD)
  then have "\<And>b. b \<in> set r \<Longrightarrow> \<exists>c. cmp x b = Inr c" by (simp add: Cons.prems)
  then have "\<exists>r'. insert_by cmp x r = Inr r' \<and> mset r' = add_mset x (mset r)"
    by (rule insert_by_total)
  then obtain r' where "insert_by cmp x r = Inr r'" "mset r' = add_mset x (mset r)" by blast
  with r show ?case by (simp add: andThen_def)
qed

lemma filtered_subset: "set (filtered mg f) \<subseteq> set (endpoints mg)"
  by (auto simp: filtered_def Let_def split: option.splits if_splits)

text \<open>
  Claim C10, amended. With \<^verbatim>\<open>sortBy\<close> naming a field that does not hold a string,
  \<^verbatim>\<open>getEndpoints\<close> throws a \<^verbatim>\<open>TypeError\<close> when at least two endpoints are left
  after filtering, and returns the filtered list when fewer than two are left (the
  comparator is then never called). Without \<^verbatim>\<open>sortBy\<close> it returns the filtered
  list, and with \<^verbatim>\<open>sortBy\<close> naming a string field it returns a rearrangement of it.
\<close>

theorem getEndpoints_sortBy:
  "(\<forall>k. f_sortBy f = Some k \<and> k \<in> other_fields \<longrightarrow>
       (2 \<le> length (filtered mg f) \<longrightarrow> getEndpoints h mg f = Inl TypeError)
     \<and> (length (filtered mg f) < 2 \<longrightarrow> getEndpoints h mg f = Inr (filtered mg f)))
   \<and> (f_sortBy f = None \<longrightarrow> getEndpoints h mg f = Inr (filtered mg f))
   \<and> (\<forall>k. f_sortBy f = Some k
         \<and> (k \<in> string_fields \<or> k = ''path'' \<and> (\<forall>e \<in> set (endpoints mg). e_path e \<noteq> None)) \<longrightarrow>
       (\<exists>r. getEndpoints h mg f = Inr r \<and> mset r = mset (filtered mg f)))"
proof (intro conjI allI impI)
  fix k assume k: "f_sortBy f = Some k \<and> k \<in> other_fields"
  then have ne: "k \<noteq> []" by (auto simp: other_fields_def)
  { assume "2 \<le> length (filtered mg f)"
    then show "getEndpoints h mg f = Inl TypeError"
      using k ne sort_by_throws[of "comparator h f k" "filtered mg f"] comparator_other[of k]
      by (simp add: getEndpoints_def) }
  { assume "length (filtered mg f) < 2"
    then show "getEndpoints h mg f = Inr (filtered mg f)"
      using k by (simp add: getEndpoints_def sort_by_short) }
next
  assume "f_sortBy f = None"
  then show "getEndpoints h mg f = Inr (filtered mg f)" by (simp add: getEndpoints_def)
next
  fix k assume k: "f_sortBy f = Some k
         \<and> (k \<in> string_fields \<or> k = ''path'' \<and> (\<forall>e \<in> set (endpoints mg). e_path e \<noteq> None))"
  then have ne: "k \<noteq> []" by (auto simp: string_fields_def)
  have "\<And>e. e \<in> set (filtered mg f) \<Longrightarrow> \<exists>s. endpoint_field e k = JStr s"
  proof -
    fix e assume e: "e \<in> set (filtered mg f)"
    show "\<exists>s. endpoint_field e k = JStr s"
    proof (cases "k \<in> string_fields")
      case True
      then show ?thesis by (rule string_field_string)
    next
      case False
      then have "k = ''path''" "e_path e \<noteq> None"
        using k e filtered_subset[of mg f] by blast+
      then show ?thesis by (auto simp: endpoint_field_def)
    qed
  qed
  then have "\<And>a b. a \<in> set (filtered mg f) \<Longrightarrow> b \<in> set (filtered mg f) \<Longrightarrow>
      \<exists>c. comparator h f k a b = Inr c"
    using comparator_string by blast
  then have "\<exists>r. sort_by (comparator h f k) (filtered mg f) = Inr r \<and> mset r = mset (filtered mg f)"
    by (rule sort_by_total)
  then show "\<exists>r. getEndpoints h mg f = Inr r \<and> mset r = mset (filtered mg f)"
    using k ne by (simp add: getEndpoints_def)
qed


text \<open>The definitions that evaluate a load and the filters on concrete data.\<close>

lemmas listing_eval =
  init_def new_manager_def ping_def loadPlugin_def validatePlugin_def allowedMethods_def
  toUpperCase_def toUpperCase_char_def startsWith_def unregisterPlugin_def registerRoute_def
  mount_def method_or_GET_def updateEndpointsRegistry_def filtered_def andThen_def Let_def

text \<open>
  Claim C10, as stated: sorting by \<^verbatim>\<open>deprecated\<close> raises. With one plugin loaded
  the call returns the one endpoint.
\<close>

theorem sortBy_deprecated_one_endpoint_returns:
  "getEndpoints node (fst one_plugin) by_deprecated =
     Inr [\<lparr>e_path = Some ''/api/ping'', e_name = ''ping'', e_description = ''ngetes api ygy'',
           e_authentication = False, e_method = ''GET'', e_tags = [], e_parameter = parameter ping,
           e_version = ''1.0.0'', e_deprecated = False, e_rateLimit = rateLimit ping,
           e_timeout = 5000\<rparr>]"
  by (simp add: one_plugin_def by_deprecated_def listing_eval getEndpoints_def)

theorem getEndpoints_sortBy_witness:
  "getEndpoints node (fst two_plugins) by_deprecated = Inl TypeError
   \<and> getEndpoints node (fst one_plugin) by_deprecated = Inr (endpoints (fst one_plugin))
   \<and> getEndpoints node (fst two_plugins) (by_deprecated\<lparr>f_sortBy := None\<rparr>) =
       Inr (endpoints (fst two_plugins))
   \<and> (\<exists>r. getEndpoints node (fst two_plugins) (by_deprecated\<lparr>f_sortBy := Some ''name''\<rparr>) = Inr r
          \<and> mset r = mset (endpoints (fst two_plugins)))"
  using getEndpoints_sortBy[of by_deprecated "fst two_plugins" node]
    getEndpoints_sortBy[of by_deprecated "fst one_plugin" node]
    getEndpoints_sortBy[of "by_deprecated\<lparr>f_sortBy := None\<rparr>" "fst two_plugins" node]
    getEndpoints_sortBy[of "by_deprecated\<lparr>f_sortBy := Some ''name''\<rparr>" "fst two_plugins" node]
  by (simp add: two_plugins_def one_plugin_def docs_def by_deprecated_def listing_eval
        other_fields_def string_fields_def)

section \<open>Properties of the registry\<close>

lemma route_keys_append: "route_keys (xs @ ys) = route_keys xs @ route_keys ys"
  by (induction xs rule: route_keys.induct) simp_all

lemma route_keys_replicate: "route_keys (replicate n Middleware) = []"
  by (induction n) simp_all

lemma route_keys_filter:
  "route_keys (filter (\<lambda>l. \<not> layer_matches old l) ls) =
     filter (\<lambda>k. k \<noteq> route_key old) (route_keys ls)"
  by (induction ls rule: route_keys.induct) (auto simp: route_key_def)

lemma unregisterPlugin_routes:
  "routes (fst (unregisterPlugin s file)) = (routes (fst s))(file := None)"
  by (cases s) (auto simp: unregisterPlugin_def split: option.splits)

lemma unregisterPlugin_host:
  "exposes_router (snd (unregisterPlugin s file)) = exposes_router (snd s)"
  "mountable (snd (unregisterPlugin s file)) = mountable (snd s)"
  by (cases s; auto simp: unregisterPlugin_def split: option.splits)+

lemma unregisterPlugin_keys:
  "exposes_router (snd s) \<Longrightarrow>
   route_keys (router_stack (snd (unregisterPlugin s file))) =
     (case routes (fst s) file of
        None \<Rightarrow> route_keys (router_stack (snd s))
      | Some old \<Rightarrow> filter (\<lambda>k. k \<noteq> route_key old) (route_keys (router_stack (snd s))))"
  by (cases s) (auto simp: unregisterPlugin_def route_keys_filter split: option.splits)

lemma toLowerCase_verbs:
  "toLowerCase ''GET'' = ''get''" "toLowerCase ''POST'' = ''post''" "toLowerCase ''PUT'' = ''put''"
  "toLowerCase ''DELETE'' = ''delete''" "toLowerCase ''PATCH'' = ''patch''"
  by (simp_all add: toLowerCase_def toLowerCase_char_def)

lemma valid_method:
  "validatePlugin (Module p) file = [] \<Longrightarrow> method_or_GET p \<in> set allowedMethods"
  by (cases "http_method p")
     (auto simp: validatePlugin_def method_or_GET_def allowedMethods_def Let_def
        split: if_splits)

lemma registerRoute_valid:
  assumes "validatePlugin (Module p) file = []" and "mountable a (path p)"
  shows "registerRoute (mg, a) p file =
     Inr (mg\<lparr>routes := (routes mg)(file \<mapsto> \<lparr>routePath = path p, route_method = method_or_GET p\<rparr>)\<rparr>,
          a\<lparr>router_stack :=
              router_stack a @ [RouteLayer (path p) (toLowerCase (method_or_GET p))]\<rparr>)"
  using valid_method[OF assms(1)] assms(2)
  by (auto simp: registerRoute_def mount_def andThen_def allowedMethods_def Let_def
        toLowerCase_verbs)

lemma registerRoute_unmountable:
  assumes "validatePlugin (Module p) file = []" and "\<not> mountable a (path p)"
  shows "registerRoute (mg, a) p file = Inl TypeError"
  using valid_method[OF assms(1)] assms(2)
  by (auto simp: registerRoute_def mount_def andThen_def allowedMethods_def Let_def)

lemma loadPlugin_valid:
  assumes "validatePlugin (Module p) file = []" and "mountable (snd s) (path p)"
  shows "routes (fst (fst (loadPlugin s file (Some (Module p))))) =
           (routes (fst s))(file \<mapsto> \<lparr>routePath = path p, route_method = method_or_GET p\<rparr>)"
    and "router_stack (snd (fst (loadPlugin s file (Some (Module p))))) =
           router_stack (snd (unregisterPlugin s file))
             @ [RouteLayer (path p) (toLowerCase (method_or_GET p))]"
    and "exposes_router (snd (fst (loadPlugin s file (Some (Module p))))) = exposes_router (snd s)"
    and "mountable (snd (fst (loadPlugin s file (Some (Module p))))) = mountable (snd s)"
    and "snd (loadPlugin s file (Some (Module p)))"
proof -
  obtain mg1 a1 where u: "unregisterPlugin s file = (mg1, a1)" by force
  have r: "routes mg1 = (routes (fst s))(file := None)"
    using unregisterPlugin_routes[of s "file"] u by simp
  have h: "exposes_router a1 = exposes_router (snd s)" "mountable a1 = mountable (snd s)"
    using unregisterPlugin_host[of s "file"] u by simp_all
  then have m: "mountable a1 (path p)" using assms(2) by simp
  have l: "loadPlugin s file (Some (Module p)) =
     ((updateEndpointsRegistry
        (mg1\<lparr>routes := (routes mg1)(file \<mapsto> \<lparr>routePath = path p, route_method = method_or_GET p\<rparr>),
             plugins := (plugins mg1)(file \<mapsto> p)\<rparr>) p file,
       a1\<lparr>router_stack :=
             router_stack a1 @ [RouteLayer (path p) (toLowerCase (method_or_GET p))]\<rparr>), True)"
    using assms(1) u by (simp add: loadPlugin_def registerRoute_valid[OF assms(1) m])
  show "routes (fst (fst (loadPlugin s file (Some (Module p))))) =
           (routes (fst s))(file \<mapsto> \<lparr>routePath = path p, route_method = method_or_GET p\<rparr>)"
    using l r by (simp add: updateEndpointsRegistry_def)
  show "router_stack (snd (fst (loadPlugin s file (Some (Module p))))) =
           router_stack (snd (unregisterPlugin s file))
             @ [RouteLayer (path p) (toLowerCase (method_or_GET p))]"
    using l u by simp
  show "exposes_router (snd (fst (loadPlugin s file (Some (Module p))))) = exposes_router (snd s)"
    using l h by simp
  show "mountable (snd (fst (loadPlugin s file (Some (Module p))))) = mountable (snd s)"
    using l h by simp
  show "snd (loadPlugin s file (Some (Module p)))" using l by simp
qed

text \<open>
  A validated descriptor whose mount throws: \<^verbatim>\<open>loadPlugin\<close> catches, returns false,
  and leaves the state in which the file's old route has been unregistered.
\<close>

lemma loadPlugin_unmountable:
  assumes "validatePlugin (Module p) file = []" and "\<not> mountable (snd s) (path p)"
  shows "loadPlugin s file (Some (Module p)) = (unregisterPlugin s file, False)"
proof -
  obtain mg1 a1 where u: "unregisterPlugin s file = (mg1, a1)" by force
  have "mountable a1 = mountable (snd s)"
    using unregisterPlugin_host(2)[of s "file"] u by simp
  then have "\<not> mountable a1 (path p)" using assms(2) by simp
  then have "registerRoute (mg1, a1) p file = Inl TypeError"
    using assms(1) by (rule registerRoute_unmountable[rotated])
  then show ?thesis using assms(1) u by (simp add: loadPlugin_def)
qed

lemma loadPlugin_cases:
  "fst (loadPlugin s file required) = s
   \<or> (\<exists>p. required = Some (Module p) \<and> validatePlugin (Module p) file = []
          \<and> \<not> mountable (snd s) (path p)
          \<and> fst (loadPlugin s file required) = unregisterPlugin s file)
   \<or> (\<exists>p. required = Some (Module p) \<and> validatePlugin (Module p) file = []
          \<and> mountable (snd s) (path p))"
proof (cases "\<exists>p. required = Some (Module p) \<and> validatePlugin (Module p) file = []")
  case False
  then have "fst (loadPlugin s file required) = s"
    by (cases required) (auto simp: loadPlugin_def split: export.splits)
  then show ?thesis by simp
next
  case True
  then obtain p where p: "required = Some (Module p)" "validatePlugin (Module p) file = []"
    by blast
  show ?thesis
  proof (cases "mountable (snd s) (path p)")
    case True
    with p show ?thesis by blast
  next
    case False
    then have "fst (loadPlugin s file required) = unregisterPlugin s file"
      using p loadPlugin_unmountable[of p "file" s] by simp
    with p False show ?thesis by blast
  qed
qed

lemma loadPlugin_host:
  "exposes_router (snd (fst (loadPlugin s file required))) = exposes_router (snd s)"
  "mountable (snd (fst (loadPlugin s file required))) = mountable (snd s)"
  using loadPlugin_cases[of s "file" required] unregisterPlugin_host[of s "file"]
    loadPlugin_valid(3,4)[of _ "file" s]
  by auto

lemma step_host:
  "exposes_router (snd (step s ev)) = exposes_router (snd s)"
  "mountable (snd (step s ev)) = mountable (snd s)"
  by (cases ev; simp add: loadPlugin_host unregisterPlugin_host)+

lemma run_host:
  "exposes_router (snd (run s evs)) = exposes_router (snd s)"
  "mountable (snd (run s evs)) = mountable (snd s)"
  unfolding run_def
  by (induction evs arbitrary: s; simp add: step_host)+

lemma registry_inv_unregister:
  assumes "registry_inv s" and "exposes_router (snd s)"
  shows "registry_inv (unregisterPlugin s file)"
proof (cases "routes (fst s) file")
  case None
  then have "unregisterPlugin s file = s" by (cases s) (simp add: unregisterPlugin_def)
  with assms show ?thesis by simp
next
  case (Some old)
  define s' where "s' = unregisterPlugin s file"
  have k: "route_keys (router_stack (snd s')) =
      filter (\<lambda>k. k \<noteq> route_key old) (route_keys (router_stack (snd s)))"
    using Some assms(2) by (simp add: s'_def unregisterPlugin_keys)
  have r: "routes (fst s') = (routes (fst s))(file := None)"
    unfolding s'_def by (rule unregisterPlugin_routes)
  have d: "distinct (route_keys (router_stack (snd s')))"
    using assms(1) k by (simp add: registry_inv_def)
  have m: "\<And>g r'. routes (fst s') g = Some r' \<Longrightarrow>
      route_key r' \<in> set (route_keys (router_stack (snd s')))"
  proof -
    fix g r' assume "routes (fst s') g = Some r'"
    then have g: "g \<noteq> file" "routes (fst s) g = Some r'" using r by (auto split: if_splits)
    then have "route_key r' \<noteq> route_key old" using assms(1) Some
      unfolding registry_inv_def by blast
    moreover have "route_key r' \<in> set (route_keys (router_stack (snd s)))"
      using assms(1) g(2) unfolding registry_inv_def by blast
    ultimately show "route_key r' \<in> set (route_keys (router_stack (snd s')))"
      using k by simp
  qed
  have i: "\<And>f g r r'. routes (fst s') f = Some r \<Longrightarrow>
      routes (fst s') g = Some r' \<Longrightarrow> route_key r = route_key r' \<Longrightarrow> f = g"
  proof -
    fix f g r r'
    assume "routes (fst s') f = Some r" "routes (fst s') g = Some r'" "route_key r = route_key r'"
    then have "routes (fst s) f = Some r" "routes (fst s) g = Some r'" "route_key r = route_key r'"
      using r by (auto split: if_splits)
    then show "f = g" using assms(1) unfolding registry_inv_def by blast
  qed
  show ?thesis unfolding registry_inv_def s'_def[symmetric] using d m i by blast
qed

lemma registry_inv_load:
  assumes "registry_inv s" and "exposes_router (snd s)"
    and "collision_free s (Load file required)"
  shows "registry_inv (fst (loadPlugin s file required))"
proof -
  define s1 where "s1 = unregisterPlugin s file"
  have inv1: "registry_inv s1"
    unfolding s1_def using assms(1,2) by (rule registry_inv_unregister)
  consider (same) "fst (loadPlugin s file required) = s"
    | (thrown) "fst (loadPlugin s file required) = s1"
    | (mounted) p where "required = Some (Module p)" "validatePlugin (Module p) file = []"
        "mountable (snd s) (path p)"
    using loadPlugin_cases[of s "file" required] unfolding s1_def by blast
  then show ?thesis
  proof cases
    case same
    with assms(1) show ?thesis by simp
  next
    case thrown
    with inv1 show ?thesis by simp
  next
    case (mounted p)
    define s2 where "s2 = fst (loadPlugin s file required)"
    define entry where "entry = \<lparr>routePath = path p, route_method = method_or_GET p\<rparr>"
    have r1: "routes (fst s1) = (routes (fst s))(file := None)"
      unfolding s1_def by (rule unregisterPlugin_routes)
    have fresh: "plugin_key p \<notin> set (route_keys (router_stack (snd s1)))"
      using assms(3) mounted(1,2) by (simp add: s1_def)
    have ek: "route_key entry = plugin_key p"
      by (simp add: route_key_def entry_def plugin_key_def)
    have r2: "routes (fst s2) = (routes (fst s1))(file \<mapsto> entry)"
      using loadPlugin_valid(1)[OF mounted(2,3)] r1 by (simp add: s2_def mounted(1) entry_def)
    have k2: "route_keys (router_stack (snd s2)) =
        route_keys (router_stack (snd s1)) @ [plugin_key p]"
      using loadPlugin_valid(2)[OF mounted(2,3)]
      by (simp add: s2_def mounted(1) s1_def route_keys_append plugin_key_def)
    have d: "distinct (route_keys (router_stack (snd s2)))"
      using inv1 fresh k2 by (simp add: registry_inv_def)
    have m: "\<And>g r'. routes (fst s2) g = Some r' \<Longrightarrow>
        route_key r' \<in> set (route_keys (router_stack (snd s2)))"
    proof -
      fix g r' assume a: "routes (fst s2) g = Some r'"
      show "route_key r' \<in> set (route_keys (router_stack (snd s2)))"
      proof (cases "g = file")
        case True
        then have "r' = entry" using a r2 by simp
        then show ?thesis using ek k2 by simp
      next
        case False
        then have "routes (fst s1) g = Some r'" using a r2 by simp
        then have "route_key r' \<in> set (route_keys (router_stack (snd s1)))"
          using inv1 unfolding registry_inv_def by blast
        then show ?thesis using k2 by simp
      qed
    qed
    have other: "\<And>g r'. g \<noteq> file \<Longrightarrow> routes (fst s2) g = Some r' \<Longrightarrow>
        route_key r' \<noteq> route_key entry"
    proof -
      fix g r' assume "g \<noteq> file" "routes (fst s2) g = Some r'"
      then have "routes (fst s1) g = Some r'" using r2 by simp
      then have "route_key r' \<in> set (route_keys (router_stack (snd s1)))"
        using inv1 unfolding registry_inv_def by blast
      then show "route_key r' \<noteq> route_key entry" using fresh ek by auto
    qed
    have i: "\<And>f g r r'. routes (fst s2) f = Some r \<Longrightarrow> routes (fst s2) g = Some r' \<Longrightarrow>
        route_key r = route_key r' \<Longrightarrow> f = g"
    proof -
      fix f g r r'
      assume a: "routes (fst s2) f = Some r" "routes (fst s2) g = Some r'"
        "route_key r = route_key r'"
      show "f = g"
      proof (cases "f = file")
        case True
        then have "r = entry" using a(1) r2 by simp
        then show ?thesis using other[of g r'] a True by auto
      next
        case False
        note ff = this
        show ?thesis
        proof (cases "g = file")
          case True
          then have "r' = entry" using a(2) r2 by simp
          then show ?thesis using other[of f r] a ff by auto
        next
          case False
          then have "routes (fst s1) f = Some r" "routes (fst s1) g = Some r'"
            using a ff r2 by simp_all
          then show ?thesis using inv1 a(3) unfolding registry_inv_def by blast
        qed
      qed
    qed
    show ?thesis unfolding registry_inv_def s2_def[symmetric] using d m i by blast
  qed
qed

lemma registry_inv_step:
  "registry_inv s \<Longrightarrow> exposes_router (snd s) \<Longrightarrow> collision_free s ev \<Longrightarrow>
     registry_inv (step s ev)"
  by (cases ev) (simp_all add: registry_inv_load registry_inv_unregister)

lemma registry_inv_new:
  "distinct (route_keys (router_stack a)) \<Longrightarrow> registry_inv (new_manager, a)"
  by (simp add: registry_inv_def new_manager_def)

lemma registry_inv_run:
  "registry_inv s \<Longrightarrow> exposes_router (snd s) \<Longrightarrow> collision_free_run s evs \<Longrightarrow>
     registry_inv (run s evs)"
  unfolding run_def
  by (induction evs arbitrary: s) (simp_all add: registry_inv_step step_host)

lemma distinct_one_entry:
  "distinct xs \<Longrightarrow> x \<in> set xs \<Longrightarrow> length (filter (\<lambda>y. y = x) xs) = 1"
  by (induction xs) (auto simp: filter_empty_conv)

lemma same_file_loads:
  assumes "\<forall>d \<in> set ds. validatePlugin (Module d) file = [] \<and> mountable a (path d)"
    and "exposes_router a" and "route_keys (router_stack a) = []"
  shows "route_keys (router_stack (snd (run (new_manager, a)
             (map (\<lambda>d. Load file (Some (Module d))) ds)))) =
           (if ds = [] then [] else [plugin_key (last ds)])
       \<and> (case routes (fst (run (new_manager, a)
             (map (\<lambda>d. Load file (Some (Module d))) ds))) file of
            None \<Rightarrow> ds = []
          | Some r \<Rightarrow> ds \<noteq> [] \<and> route_key r = plugin_key (last ds))"
  using assms(1)
proof (induction ds rule: rev_induct)
  case Nil
  then show ?case using assms(3) by (simp add: run_def new_manager_def)
next
  case (snoc d ds)
  define s where "s = run (new_manager, a) (map (\<lambda>d. Load file (Some (Module d))) ds)"
  have v: "validatePlugin (Module d) file = []" using snoc.prems by simp
  have e: "exposes_router (snd s)" using assms(2) by (simp add: s_def run_host)
  have mo: "mountable (snd s) (path d)" using snoc.prems by (simp add: s_def run_host)
  have ih: "route_keys (router_stack (snd s)) = (if ds = [] then [] else [plugin_key (last ds)])"
    "case routes (fst s) file of None \<Rightarrow> ds = []
       | Some r \<Rightarrow> ds \<noteq> [] \<and> route_key r = plugin_key (last ds)"
    using snoc.IH snoc.prems by (simp_all add: s_def)
  have u: "route_keys (router_stack (snd (unregisterPlugin s file))) = []"
    using ih by (cases "routes (fst s) file") (simp_all add: unregisterPlugin_keys[OF e])
  have r: "run (new_manager, a) (map (\<lambda>d. Load file (Some (Module d))) (ds @ [d])) =
      fst (loadPlugin s file (Some (Module d)))"
    by (simp add: run_def s_def)
  have "route_keys (router_stack (snd (fst (loadPlugin s file (Some (Module d)))))) =
      [plugin_key d]"
    using loadPlugin_valid(2)[OF v mo] u by (simp add: route_keys_append plugin_key_def)
  moreover have "routes (fst (fst (loadPlugin s file (Some (Module d))))) file =
      Some \<lparr>routePath = path d, route_method = method_or_GET d\<rparr>"
    using loadPlugin_valid(1)[OF v mo] by simp
  ultimately show ?case
    unfolding r by (simp add: route_key_def plugin_key_def)
qed

text \<open>
  Claim C1, amended. The routes map holds at most one Route Entry for a file, being a
  map. On a host that exposes its router's stack as \<^verbatim>\<open>app._router.stack\<close> and whose
  stack holds no \<open>(path, method)\<close> pair twice: from a fresh manager, after any sequence
  of load and unregister calls in which no load mounts a pair that another route of the
  stack already has, the stack holds no pair twice and holds the pair of every Route
  Entry exactly once. On such a host with no route of its own, after any non-empty
  sequence of loads, for one and the same file, of valid descriptors whose paths the
  host mounts, the stack holds exactly one route layer, the one of the descriptor
  loaded last.
\<close>

theorem route_stack_unique_when_collision_free:
  "(exposes_router a \<and> distinct (route_keys (router_stack a))
      \<and> collision_free_run (new_manager, a) evs \<longrightarrow>
      distinct (route_keys (router_stack (snd (run (new_manager, a) evs))))
      \<and> (\<forall>f r. routes (fst (run (new_manager, a) evs)) f = Some r \<longrightarrow>
            length (filter (\<lambda>k. k = route_key r)
                      (route_keys (router_stack (snd (run (new_manager, a) evs))))) = 1))
   \<and> (exposes_router a \<and> route_keys (router_stack a) = []
      \<and> (\<forall>d \<in> set ds. validatePlugin (Module d) file = [] \<and> mountable a (path d))
      \<and> ds \<noteq> [] \<longrightarrow>
      route_keys (router_stack (snd (run (new_manager, a)
          (map (\<lambda>d. Load file (Some (Module d))) ds)))) =
        [plugin_key (last ds)])"
proof (intro conjI impI allI)
  assume a: "exposes_router a \<and> distinct (route_keys (router_stack a))
      \<and> collision_free_run (new_manager, a) evs"
  then have "registry_inv (new_manager, a)" by (simp add: registry_inv_new)
  then have inv: "registry_inv (run (new_manager, a) evs)"
    using a by (simp add: registry_inv_run)
  then show d: "distinct (route_keys (router_stack (snd (run (new_manager, a) evs))))"
    by (simp add: registry_inv_def)
  fix f r assume "routes (fst (run (new_manager, a) evs)) f = Some r"
  then have "route_key r \<in> set (route_keys (router_stack (snd (run (new_manager, a) evs))))"
    using inv unfolding registry_inv_def by blast
  with d show "length (filter (\<lambda>k. k = route_key r)
      (route_keys (router_stack (snd (run (new_manager, a) evs))))) = 1"
    by (rule distinct_one_entry)
next
  assume "exposes_router a \<and> route_keys (router_stack a) = []
      \<and> (\<forall>d \<in> set ds. validatePlugin (Module d) file = [] \<and> mountable a (path d))
      \<and> ds \<noteq> []"
  then show "route_keys (router_stack (snd (run (new_manager, a)
          (map (\<lambda>d. Load file (Some (Module d))) ds)))) = [plugin_key (last ds)]"
    using same_file_loads[of ds "file" a] by simp
qed

text \<open>The definitions that evaluate a registry call on concrete data.\<close>

lemmas registry_eval =
  init_def new_manager_def ping_def loadPlugin_def validatePlugin_def allowedMethods_def
  toUpperCase_def toUpperCase_char_def toLowerCase_def toLowerCase_char_def startsWith_def
  unregisterPlugin_def registerRoute_def mount_def andThen_def method_or_GET_def
  updateEndpointsRegistry_def run_def Let_def plugin_key_def

text \<open>
  Claim C1, as stated: never two stack entries for one \<open>(path, method)\<close> pair. Two
  files that export the same route are both mounted.
\<close>

theorem two_files_one_route_duplicate:
  "route_keys (router_stack (snd (run (init 0)
      [Load ''a.js'' (Some (Module ping)), Load ''b.js'' (Some (Module ping))]))) =
     [(Some ''/api/ping'', ''get''), (Some ''/api/ping'', ''get'')]"
  by (simp add: registry_eval)

theorem route_stack_unique_when_collision_free_witness:
  "collision_free_run (init 1)
      [Load ''a.js'' (Some (Module ping)), Load ''a.js'' (Some (Module ping))]
   \<and> route_keys (router_stack (snd (run (init 1)
      [Load ''a.js'' (Some (Module ping)), Load ''a.js'' (Some (Module ping))]))) =
     [(Some ''/api/ping'', ''get'')]"
  using route_stack_unique_when_collision_free[of "snd (init 1)"
     "[Load ''a.js'' (Some (Module ping)), Load ''a.js'' (Some (Module ping))]" "[ping, ping]" "''a.js''"]
  by (simp add: registry_eval)

text \<open>
  Why the host must expose its router: where \<^verbatim>\<open>app._router\<close> is not there,
  \<^verbatim>\<open>unregisterPlugin\<close> removes no layer, and a reload of one file leaves the old
  layer beside the new one.
\<close>

lemma reload_without_router_keeps_old_layer:
  "route_keys (router_stack (snd (run (new_manager, hidden_router)
      [Load ''a.js'' (Some (Module ping)), Load ''a.js'' (Some (Module ping))]))) =
     [(Some ''/api/ping'', ''get''), (Some ''/api/ping'', ''get'')]"
  by (simp add: registry_eval hidden_router_def)

end
